theory Spec2Isabelle
  imports Main "HOL-Library.Sublist" "HOL-Library.Word"
begin

section \<open>The GCE manager of the cluster autoscaler\<close>

text \<open>
  A shallow embedding of \<^verbatim>\<open>cluster-autoscaler/cloudprovider/gce/gce_manager.go\<close>.
  The manager is a record that every operation takes and returns; the services it talks
  to (compute, container, template builder) are parameters; every request it issues is
  appended to a log, so that "no request was issued" can be stated.
\<close>

subsection \<open>Data\<close>

text \<open>
  Modelled from the spec: the struct \<^verbatim>\<open>GceRef\<close> is declared outside this file. The
  source builds it as \<^verbatim>\<open>GceRef{Name: name, Zone: zone, Project: project}\<close>, compares it
  with \<^verbatim>\<open>==\<close> and uses it as a map key.
\<close>

record GceRef =
  Project :: string
  Zone :: string
  Name :: string

text \<open>
  Modelled from the spec: the struct \<^verbatim>\<open>Mig\<close> is declared outside this file; the fields
  are those the source sets in \<^verbatim>\<open>fetchAllNodePools\<close>. The source only handles pointers
  \<^verbatim>\<open>*Mig\<close> and compares them with \<^verbatim>\<open>!=\<close> in \<^verbatim>\<open>DeleteInstances\<close>. No function of the
  file writes a field of a \<^verbatim>\<open>Mig\<close> after it has been built, so a non-nil pointer is
  modelled as the object together with its address \<open>ptr\<close>: two pointers are equal exactly
  when the values are. A pointer that may be nil is a \<open>Mig option\<close>. The back reference
  \<^verbatim>\<open>gceManager\<close> always points to the one manager and is left out.
\<close>

record Mig =
  ptr :: nat
  GceRef :: GceRef
  minSize :: int
  maxSize :: int
  exist :: bool
  autoprovisioned :: bool

record migInformation =
  config :: Mig
  basename :: string

type_synonym GcpCloudProviderMode = string

definition ModeGCE :: GcpCloudProviderMode where
  "ModeGCE = ''gce''"

definition ModeGKE :: GcpCloudProviderMode where
  "ModeGKE = ''gke''"

text \<open>Durations are in nanoseconds, as \<^verbatim>\<open>time.Duration\<close> is.\<close>

definition operationWaitTimeout :: nat where
  "operationWaitTimeout = 5 * 1000000000"

definition operationPollInterval :: nat where
  "operationPollInterval = 100 * 1000000"

definition nodeAutoprovisioningPrefix :: string where
  "nodeAutoprovisioningPrefix = ''nodeautoprovisioning''"

text \<open>
  The errors of the file. \<open>CollaboratorError\<close> is any error value made outside the file
  (a failed request, a URL that does not parse); the others are the four \<^verbatim>\<open>fmt.Errorf\<close>
  of the file, with the values their messages print.
\<close>

datatype error =
    CollaboratorError string
  | LookupError GceRef error
  | NotInAnyMig GceRef
  | NotSameMig
  | OperationTimeout string string

text \<open>A function of the source that can panic either returns or panics.\<close>

datatype 'a outcome = Returns 'a | Panics

text \<open>The fields that the source reads of the API's response types.\<close>

record Operation =
  Operation_Name :: string
  TargetLink :: string
  Status :: string

record NodePoolAutoscaling =
  Enabled :: bool
  MinNodeCount :: "64 word"
  MaxNodeCount :: "64 word"

record NodePool =
  NodePool_Name :: string
  Autoscaling :: "NodePoolAutoscaling option"
  InstanceGroupUrls :: "string list"

type_synonym InstanceTemplate = string

text \<open>
  The log of requests, in the order they were issued. A status poll is logged with
  what it answered.
\<close>

datatype call =
    NodePoolsList string string string
  | IgmGet string string string
  | IgmListManagedInstances string string string
  | IgmDeleteInstances string string string "string list"
  | ZoneOperationsGet string string string "error + Operation"
  | GetMigTemplate Mig
  | BuildNodeFromTemplate Mig

fun mutating :: "call \<Rightarrow> bool" where
  "mutating (IgmDeleteInstances p z n urls) = True"
| "mutating c = False"

text \<open>
  Everything the file uses and does not define. The services answer from, and change, a
  state \<open>'c\<close> of the outside world, about which nothing is assumed. Of
  \<^verbatim>\<open>InstanceGroupManagers.Get\<close> only \<^verbatim>\<open>BaseInstanceName\<close> is read here and of
  \<^verbatim>\<open>ListManagedInstances\<close> only the \<^verbatim>\<open>Instance\<close> URL of each member, so these are
  what the two services return. \<^verbatim>\<open>getMigTemplate\<close> returns a template pointer and an
  error, and the source passes the pointer on whatever the error is. \<open>duration\<close> is the
  time the last request took and \<open>oversleep\<close> the time \<^verbatim>\<open>time.Sleep\<close> pauses beyond what it
  was asked. The two parsers, the URL printer and the two size constants are declared in
  other files of the package.
\<close>

record 'c deps =
  NodePools_List :: "string \<Rightarrow> string \<Rightarrow> string \<Rightarrow> 'c \<Rightarrow> (error + NodePool list) \<times> 'c"
  InstanceGroupManagers_Get :: "string \<Rightarrow> string \<Rightarrow> string \<Rightarrow> 'c \<Rightarrow> (error + string) \<times> 'c"
  InstanceGroupManagers_ListManagedInstances ::
    "string \<Rightarrow> string \<Rightarrow> string \<Rightarrow> 'c \<Rightarrow> (error + string list) \<times> 'c"
  InstanceGroupManagers_DeleteInstances ::
    "string \<Rightarrow> string \<Rightarrow> string \<Rightarrow> string list \<Rightarrow> 'c \<Rightarrow> (error + Operation) \<times> 'c"
  ZoneOperations_Get :: "string \<Rightarrow> string \<Rightarrow> string \<Rightarrow> 'c \<Rightarrow> (error + Operation) \<times> 'c"
  getMigTemplate :: "Mig \<Rightarrow> 'c \<Rightarrow> (InstanceTemplate option \<times> error option) \<times> 'c"
  buildNodeFromTemplate :: "Mig \<Rightarrow> InstanceTemplate option \<Rightarrow> 'c \<Rightarrow> error option \<times> 'c"
  parseGceUrl :: "string \<Rightarrow> string \<Rightarrow> error + (string \<times> string \<times> string)"
  ParseInstanceUrl :: "string \<Rightarrow> error + (string \<times> string \<times> string)"
  GenerateInstanceUrl :: "string \<Rightarrow> string \<Rightarrow> string \<Rightarrow> string"
  minAutoprovisionedSize :: int
  maxAutoprovisionedSize :: int
  duration :: "'c \<Rightarrow> nat"
  oversleep :: "'c \<Rightarrow> nat"

text \<open>
  The struct \<^verbatim>\<open>GceManager\<close> (\<open>migs\<close> to \<open>mode\<close>) and its surroundings: the state of the
  outside world, the log of requests, the monotonic clock and the next free address for
  a \<^verbatim>\<open>Mig\<close>. The two mutexes are left out: the operations are modelled one at a time.
\<close>

record 'c GceManager =
  migs :: "migInformation list"
  migCache :: "GceRef \<rightharpoonup> Mig"
  zone :: string
  projectId :: string
  clusterName :: string
  mode :: GcpCloudProviderMode
  cloud :: 'c
  calls :: "call list"
  clock :: nat
  nextPtr :: nat

text \<open>Issuing a request: the world answers and moves on, the request is logged, time passes.\<close>

definition issue ::
  "'c deps \<Rightarrow> ('a \<Rightarrow> call) \<Rightarrow> ('c \<Rightarrow> 'a \<times> 'c) \<Rightarrow> 'c GceManager \<Rightarrow> 'a \<times> 'c GceManager" where
  "issue dp entry f m =
     (case f (cloud m) of
        (r, c') \<Rightarrow>
          (r, m\<lparr>cloud := c', calls := calls m @ [entry r], clock := clock m + duration dp c'\<rparr>))"

definition time_Sleep :: "'c deps \<Rightarrow> nat \<Rightarrow> 'c GceManager \<Rightarrow> 'c GceManager" where
  "time_Sleep dp d m = m\<lparr>clock := clock m + d + oversleep dp (cloud m)\<rparr>"

text \<open>\<^verbatim>\<open>strings.Contains(s, substr)\<close> and \<^verbatim>\<open>strings.HasPrefix(s, prefix)\<close> of Go's library.\<close>

fun strings_Contains :: "string \<Rightarrow> string \<Rightarrow> bool" where
  "strings_Contains [] substr = (substr = [])"
| "strings_Contains (c # s) substr = (prefix substr (c # s) \<or> strings_Contains s substr)"

definition strings_HasPrefix :: "string \<Rightarrow> string \<Rightarrow> bool" where
  "strings_HasPrefix s p = prefix p s"

subsection \<open>RegisterMig\<close>

text \<open>
  The loop over \<^verbatim>\<open>m.migs\<close>: every record whose config has the identity of \<open>mig\<close> gets
  \<open>mig\<close> as its config; \<open>updated\<close> tells whether there was one.
\<close>

fun RegisterMig_loop :: "Mig \<Rightarrow> migInformation list \<Rightarrow> bool \<Rightarrow> migInformation list \<times> bool" where
  "RegisterMig_loop mig [] updated = ([], updated)"
| "RegisterMig_loop mig (r # rs) updated =
     (if GceRef (config r) = GceRef mig
      then (case RegisterMig_loop mig rs True of (rs', u) \<Rightarrow> (r\<lparr>config := mig\<rparr> # rs', u))
      else (case RegisterMig_loop mig rs updated of (rs', u) \<Rightarrow> (r # rs', u)))"

definition RegisterMig :: "'c deps \<Rightarrow> Mig \<Rightarrow> 'c GceManager \<Rightarrow> bool \<times> 'c GceManager" where
  "RegisterMig dp mig m =
     (case RegisterMig_loop mig (migs m) False of
        (migs', updated) \<Rightarrow>
          let m1 = (if \<not> updated
                    then m\<lparr>migs := migs' @ [\<lparr>config = mig, basename = []\<rparr>]\<rparr>
                    else m\<lparr>migs := migs'\<rparr>)
          in (case issue dp (\<lambda>_. GetMigTemplate mig) (getMigTemplate dp mig) m1 of
                ((template, err), m2) \<Rightarrow>
                  (case issue dp (\<lambda>_. BuildNodeFromTemplate mig)
                          (buildNodeFromTemplate dp mig template) m2 of
                     (err', m3) \<Rightarrow> (\<not> updated, m3))))"

text \<open>The identities of the registered groups, in the order of the registry.\<close>

definition identities :: "'c GceManager \<Rightarrow> GceRef list" where
  "identities m = map (\<lambda>r. GceRef (config r)) (migs m)"

text \<open>A sequence of calls of \<open>RegisterMig\<close>, with what each returned.\<close>

fun RegisterMigs :: "'c deps \<Rightarrow> Mig list \<Rightarrow> 'c GceManager \<Rightarrow> bool list \<times> 'c GceManager" where
  "RegisterMigs dp [] m = ([], m)"
| "RegisterMigs dp (g # gs) m =
     (case RegisterMig dp g m of
        (b, m1) \<Rightarrow> (case RegisterMigs dp gs m1 of (bs, m2) \<Rightarrow> (b # bs, m2)))"

subsection \<open>fetchAllNodePools\<close>

text \<open>The inner loop over the instance group URLs of one eligible pool.\<close>

fun fetch_urls ::
  "'c deps \<Rightarrow> bool \<Rightarrow> bool \<Rightarrow> NodePool \<Rightarrow> string list \<Rightarrow> 'c GceManager
     \<Rightarrow> error option \<times> 'c GceManager" where
  "fetch_urls dp autoprov autoscaled nodePool [] m = (None, m)"
| "fetch_urls dp autoprov autoscaled nodePool (igurl # rest) m =
     (case parseGceUrl dp igurl ''instanceGroupManagers'' of
        Inl err \<Rightarrow> (Some err, m)
      | Inr (project, zn, name) \<Rightarrow>
          let mig0 = \<lparr>ptr = nextPtr m,
                      GceRef = \<lparr>Project = project, Zone = zn, Name = name\<rparr>,
                      minSize = 0, maxSize = 0, exist = True, autoprovisioned = autoprov\<rparr>;
              mig = (if autoscaled
                     then (case Autoscaling nodePool of
                             Some a \<Rightarrow> mig0\<lparr>minSize := sint (MinNodeCount a),
                                            maxSize := sint (MaxNodeCount a)\<rparr>
                           | None \<Rightarrow> mig0)
                     else if autoprov
                     then mig0\<lparr>minSize := minAutoprovisionedSize dp,
                               maxSize := maxAutoprovisionedSize dp\<rparr>
                     else mig0)
          in (case RegisterMig dp mig (m\<lparr>nextPtr := nextPtr m + 1\<rparr>) of
                (b, m1) \<Rightarrow> fetch_urls dp autoprov autoscaled nodePool rest m1))"

text \<open>
  The outer loop over the pools. The source tests the literal \<^verbatim>\<open>"name"\<close> for the
  prefix, not the name of the pool.
\<close>

fun fetch_pools :: "'c deps \<Rightarrow> NodePool list \<Rightarrow> 'c GceManager \<Rightarrow> error option \<times> 'c GceManager" where
  "fetch_pools dp [] m = (None, m)"
| "fetch_pools dp (nodePool # rest) m =
     (let autoprov = strings_Contains ''name'' nodeAutoprovisioningPrefix;
          autoscaled = (case Autoscaling nodePool of None \<Rightarrow> False | Some a \<Rightarrow> Enabled a)
      in if \<not> autoprov \<and> \<not> autoscaled then fetch_pools dp rest m
         else (case fetch_urls dp autoprov autoscaled nodePool (InstanceGroupUrls nodePool) m of
                 (Some err, m1) \<Rightarrow> (Some err, m1)
               | (None, m1) \<Rightarrow> fetch_pools dp rest m1))"

definition fetchAllNodePools ::
  "'c deps \<Rightarrow> 'c GceManager \<Rightarrow> error option outcome \<times> 'c GceManager" where
  "fetchAllNodePools dp m =
     (if mode m \<noteq> ModeGKE then (Panics, m)
      else (case issue dp (\<lambda>_. NodePoolsList (projectId m) (zone m) (clusterName m))
                   (NodePools_List dp (projectId m) (zone m) (clusterName m)) m of
              (Inl err, m1) \<Rightarrow> (Returns (Some err), m1)
            | (Inr nodePools, m1) \<Rightarrow>
                (case fetch_pools dp nodePools m1 of (r, m2) \<Rightarrow> (Returns r, m2))))"

subsection \<open>waitForOp\<close>

text \<open>
  The loop \<^verbatim>\<open>for start := time.Now(); time.Since(start) < operationWaitTimeout;
  time.Sleep(operationPollInterval)\<close>, entered at its test.
\<close>

function waitForOp_loop ::
  "'c deps \<Rightarrow> Operation \<Rightarrow> string \<Rightarrow> string \<Rightarrow> nat \<Rightarrow> 'c GceManager
     \<Rightarrow> error option \<times> 'c GceManager" where
  "waitForOp_loop dp operation project zn start m =
     (if clock m - start < operationWaitTimeout
      then (case issue dp (ZoneOperationsGet project zn (Operation_Name operation))
                   (ZoneOperations_Get dp project zn (Operation_Name operation)) m of
              (Inr op, m1) \<Rightarrow>
                if Status op = ''DONE'' then (None, m1)
                else waitForOp_loop dp operation project zn start
                       (time_Sleep dp operationPollInterval m1)
            | (Inl err, m1) \<Rightarrow>
                waitForOp_loop dp operation project zn start
                  (time_Sleep dp operationPollInterval m1))
      else (Some (OperationTimeout (Operation_Name operation) (TargetLink operation)), m))"
  by pat_completeness auto

text \<open>
  Every round adds at least the poll interval to the clock, so the loop ends: the
  remaining part of the window decreases.
\<close>

termination waitForOp_loop
  by (relation "measure (\<lambda>(dp, operation, project, zn, start, m). start + operationWaitTimeout - clock m)")
     (auto simp: issue_def time_Sleep_def operationPollInterval_def split: prod.splits)

definition waitForOp ::
  "'c deps \<Rightarrow> Operation \<Rightarrow> string \<Rightarrow> string \<Rightarrow> 'c GceManager \<Rightarrow> error option \<times> 'c GceManager" where
  "waitForOp dp operation project zn m = waitForOp_loop dp operation project zn (clock m) m"

text \<open>Whether a status poll was answered, without error, by the status \<^verbatim>\<open>"DONE"\<close>.\<close>

fun reports_done :: "error + Operation \<Rightarrow> bool" where
  "reports_done (Inr op) = (Status op = ''DONE'')"
| "reports_done (Inl err) = False"

subsection \<open>getMigs, regenerateCache, GetMigForInstance\<close>

text \<open>
  \<^verbatim>\<open>getMigs\<close> builds a new \<^verbatim>\<open>migInformation\<close> for every record of the registry: the
  result is a list of copies, not of the registry's own records.
\<close>

definition getMigs :: "'c GceManager \<Rightarrow> migInformation list" where
  "getMigs m = map (\<lambda>mig. \<lparr>config = config mig, basename = basename mig\<rparr>) (migs m)"

text \<open>The inner loop over the members of one group.\<close>

fun regenerate_instances ::
  "'c deps \<Rightarrow> Mig \<Rightarrow> string list \<Rightarrow> (GceRef \<rightharpoonup> Mig) \<Rightarrow> error + (GceRef \<rightharpoonup> Mig)" where
  "regenerate_instances dp mig [] newMigCache = Inr newMigCache"
| "regenerate_instances dp mig (instance # rest) newMigCache =
     (case ParseInstanceUrl dp instance of
        Inl err \<Rightarrow> Inl err
      | Inr (project, zn, name) \<Rightarrow>
          regenerate_instances dp mig rest
            (newMigCache(\<lparr>Project = project, Zone = zn, Name = name\<rparr> \<mapsto> mig)))"

text \<open>
  The loop over the copies that \<^verbatim>\<open>getMigs\<close> returned. \<^verbatim>\<open>migInfo.basename = ...\<close> writes
  the copy; the loop returns the copies as written, with the new map.
\<close>

fun regenerateCache_loop ::
  "'c deps \<Rightarrow> migInformation list \<Rightarrow> (GceRef \<rightharpoonup> Mig) \<Rightarrow> 'c GceManager
     \<Rightarrow> (error + migInformation list \<times> (GceRef \<rightharpoonup> Mig)) \<times> 'c GceManager" where
  "regenerateCache_loop dp [] newMigCache m = (Inr ([], newMigCache), m)"
| "regenerateCache_loop dp (migInfo # rest) newMigCache m =
     (let mig = config migInfo
      in (case issue dp (\<lambda>_. IgmGet (Project (GceRef mig)) (Zone (GceRef mig)) (Name (GceRef mig)))
                 (InstanceGroupManagers_Get dp (Project (GceRef mig)) (Zone (GceRef mig))
                    (Name (GceRef mig))) m of
            (Inl err, m1) \<Rightarrow> (Inl err, m1)
          | (Inr baseInstanceName, m1) \<Rightarrow>
              let migInfo' = migInfo\<lparr>basename := baseInstanceName\<rparr>
              in (case issue dp (\<lambda>_. IgmListManagedInstances (Project (GceRef mig))
                                      (Zone (GceRef mig)) (Name (GceRef mig)))
                         (InstanceGroupManagers_ListManagedInstances dp (Project (GceRef mig))
                            (Zone (GceRef mig)) (Name (GceRef mig))) m1 of
                    (Inl err, m2) \<Rightarrow> (Inl err, m2)
                  | (Inr instances, m2) \<Rightarrow>
                      (case regenerate_instances dp mig instances newMigCache of
                         Inl err \<Rightarrow> (Inl err, m2)
                       | Inr newMigCache' \<Rightarrow>
                           (case regenerateCache_loop dp rest newMigCache' m2 of
                              (Inl err, m3) \<Rightarrow> (Inl err, m3)
                            | (Inr (snapshot, newMigCache''), m3) \<Rightarrow>
                                (Inr (migInfo' # snapshot, newMigCache''), m3))))))"

definition regenerateCache :: "'c deps \<Rightarrow> 'c GceManager \<Rightarrow> error option \<times> 'c GceManager" where
  "regenerateCache dp m =
     (case regenerateCache_loop dp (getMigs m) Map.empty m of
        (Inl err, m1) \<Rightarrow> (Some err, m1)
      | (Inr (snapshot, newMigCache), m1) \<Rightarrow> (None, m1\<lparr>migCache := newMigCache\<rparr>))"

fun GetMigForInstance_loop ::
  "'c deps \<Rightarrow> GceRef \<Rightarrow> migInformation list \<Rightarrow> 'c GceManager
     \<Rightarrow> (error + Mig option) \<times> 'c GceManager" where
  "GetMigForInstance_loop dp instance [] m = (Inr None, m)"
| "GetMigForInstance_loop dp instance (mig # rest) m =
     (if Project (GceRef (config mig)) = Project instance \<and>
         Zone (GceRef (config mig)) = Zone instance \<and>
         strings_HasPrefix (Name instance) (basename mig)
      then (case regenerateCache dp m of
              (Some err, m1) \<Rightarrow> (Inl (LookupError instance err), m1)
            | (None, m1) \<Rightarrow>
                (case migCache m1 instance of
                   Some found \<Rightarrow> (Inr (Some found), m1)
                 | None \<Rightarrow> (Inl (NotInAnyMig instance), m1)))
      else GetMigForInstance_loop dp instance rest m)"

definition GetMigForInstance ::
  "'c deps \<Rightarrow> GceRef \<Rightarrow> 'c GceManager \<Rightarrow> (error + Mig option) \<times> 'c GceManager" where
  "GetMigForInstance dp instance m =
     (case migCache m instance of
        Some mig \<Rightarrow> (Inr (Some mig), m)
      | None \<Rightarrow> GetMigForInstance_loop dp instance (getMigs m) m)"

subsection \<open>DeleteInstances\<close>

fun DeleteInstances_loop ::
  "'c deps \<Rightarrow> Mig option \<Rightarrow> GceRef list \<Rightarrow> 'c GceManager \<Rightarrow> error option \<times> 'c GceManager" where
  "DeleteInstances_loop dp commonMig [] m = (None, m)"
| "DeleteInstances_loop dp commonMig (instance # rest) m =
     (case GetMigForInstance dp instance m of
        (Inl err, m1) \<Rightarrow> (Some err, m1)
      | (Inr mig, m1) \<Rightarrow>
          if mig \<noteq> commonMig then (Some NotSameMig, m1)
          else DeleteInstances_loop dp commonMig rest m1)"

definition DeleteInstances ::
  "'c deps \<Rightarrow> GceRef list \<Rightarrow> 'c GceManager \<Rightarrow> error option outcome \<times> 'c GceManager" where
  "DeleteInstances dp instances m =
     (case instances of
        [] \<Rightarrow> (Returns None, m)
      | first # others \<Rightarrow>
          (case GetMigForInstance dp first m of
             (Inl err, m1) \<Rightarrow> (Returns (Some err), m1)
           | (Inr commonMig, m1) \<Rightarrow>
               (case DeleteInstances_loop dp commonMig instances m1 of
                  (Some err, m2) \<Rightarrow> (Returns (Some err), m2)
                | (None, m2) \<Rightarrow>
                    let req = map (\<lambda>instance. GenerateInstanceUrl dp (Project instance)
                                     (Zone instance) (Name instance)) instances
                    in (case commonMig of
                          None \<Rightarrow> (Panics, m2)
                        | Some cm \<Rightarrow>
                            (case issue dp (\<lambda>_. IgmDeleteInstances (Project (GceRef cm))
                                              (Zone (GceRef cm)) (Name (GceRef cm)) req)
                                    (InstanceGroupManagers_DeleteInstances dp (Project (GceRef cm))
                                       (Zone (GceRef cm)) (Name (GceRef cm)) req) m2 of
                               (Inl err, m3) \<Rightarrow> (Returns (Some err), m3)
                             | (Inr op, m3) \<Rightarrow>
                                 (case waitForOp dp op (Project (GceRef cm)) (Zone (GceRef cm)) m3 of
                                    (r, m4) \<Rightarrow> (Returns r, m4)))))))"

text \<open>
  The instances of a list looked up one after the other, each from the manager that the
  lookup before left: the results, and the manager after the last.
\<close>

fun lookups ::
  "'c deps \<Rightarrow> GceRef list \<Rightarrow> 'c GceManager \<Rightarrow> (error + Mig option) list \<times> 'c GceManager" where
  "lookups dp [] m = ([], m)"
| "lookups dp (instance # rest) m =
     (case GetMigForInstance dp instance m of
        (r, m1) \<Rightarrow> (case lookups dp rest m1 of (rs, m2) \<Rightarrow> (r # rs, m2)))"

subsection \<open>A sample world\<close>

text \<open>
  A small outside world on which the model is run. Its state counts the status polls
  answered: the first poll fails, the second reports a running operation, every later
  one reports \<^verbatim>\<open>DONE\<close>. Group \<^verbatim>\<open>grp-a\<close> has two members and base instance name
  \<^verbatim>\<open>grp-a\<close>; any other group has no member. A URL stands for the resource of that
  name in project \<^verbatim>\<open>p1\<close> and zone \<^verbatim>\<open>z1\<close>. The template builder always fails.
\<close>

definition sample_op :: Operation where
  "sample_op = \<lparr>Operation_Name = ''op-1'', TargetLink = ''grp-a'', Status = ''RUNNING''\<rparr>"

definition sample_pools :: "NodePool list" where
  "sample_pools =
     [\<lparr>NodePool_Name = ''default-pool'',
       Autoscaling = Some \<lparr>Enabled = True, MinNodeCount = 1, MaxNodeCount = 5\<rparr>,
       InstanceGroupUrls = [''grp-a'']\<rparr>,
      \<lparr>NodePool_Name = ''nodeautoprovisioning-pool'',
       Autoscaling = Some \<lparr>Enabled = False, MinNodeCount = 0, MaxNodeCount = 0\<rparr>,
       InstanceGroupUrls = [''grp-b'']\<rparr>,
      \<lparr>NodePool_Name = ''fixed-pool'',
       Autoscaling = None,
       InstanceGroupUrls = [''grp-c'']\<rparr>]"

definition sample_deps :: "nat deps" where
  "sample_deps =
     \<lparr>NodePools_List = (\<lambda>p z n c. (Inr sample_pools, c)),
      InstanceGroupManagers_Get = (\<lambda>p z n c. (Inr n, c)),
      InstanceGroupManagers_ListManagedInstances =
        (\<lambda>p z n c. (Inr (if n = ''grp-a'' then [''grp-a-1'', ''grp-a-2''] else []), c)),
      InstanceGroupManagers_DeleteInstances = (\<lambda>p z n urls c. (Inr sample_op, c)),
      ZoneOperations_Get =
        (\<lambda>p z n c.
           (if c = 0 then Inl (CollaboratorError ''unavailable'')
            else if c = 1 then Inr sample_op
            else Inr (sample_op\<lparr>Status := ''DONE''\<rparr>), Suc c)),
      getMigTemplate = (\<lambda>mig c. ((None, Some (CollaboratorError ''no template'')), c)),
      buildNodeFromTemplate = (\<lambda>mig t c. (Some (CollaboratorError ''no template''), c)),
      parseGceUrl = (\<lambda>url kind. Inr (''p1'', ''z1'', url)),
      ParseInstanceUrl = (\<lambda>url. Inr (''p1'', ''z1'', url)),
      GenerateInstanceUrl = (\<lambda>p z n. n),
      minAutoprovisionedSize = 0,
      maxAutoprovisionedSize = 1000,
      duration = (\<lambda>c. 1000000),
      oversleep = (\<lambda>c. 0)\<rparr>"


text \<open>The same world with the members of no group to be had.\<close>

definition failing_deps :: "nat deps" where
  "failing_deps =
     sample_deps\<lparr>InstanceGroupManagers_ListManagedInstances :=
                   (\<lambda>p z n c. (Inl (CollaboratorError ''unavailable''), c))\<rparr>"

definition sample_manager :: "nat GceManager" where
  "sample_manager =
     \<lparr>migs = [], migCache = Map.empty, zone = ''z1'', projectId = ''p1'',
      clusterName = ''c1'', mode = ModeGKE, cloud = 0, calls = [], clock = 0, nextPtr = 0\<rparr>"

definition grp_a :: Mig where
  "grp_a = \<lparr>ptr = 0, GceRef = \<lparr>Project = ''p1'', Zone = ''z1'', Name = ''grp-a''\<rparr>,
            minSize = 1, maxSize = 5, exist = True, autoprovisioned = False\<rparr>"

definition grp_b :: Mig where
  "grp_b = \<lparr>ptr = 1, GceRef = \<lparr>Project = ''p1'', Zone = ''z1'', Name = ''grp-b''\<rparr>,
            minSize = 0, maxSize = 3, exist = True, autoprovisioned = False\<rparr>"

text \<open>A second object for the group \<^verbatim>\<open>grp-a\<close>, with other bounds.\<close>

definition grp_a2 :: Mig where
  "grp_a2 = \<lparr>ptr = 2, GceRef = \<lparr>Project = ''p1'', Zone = ''z1'', Name = ''grp-a''\<rparr>,
             minSize = 2, maxSize = 9, exist = True, autoprovisioned = False\<rparr>"

text \<open>The manager with the groups \<^verbatim>\<open>grp-a\<close> and \<^verbatim>\<open>grp-b\<close> registered.\<close>

definition registered_manager :: "nat GceManager" where
  "registered_manager =
     sample_manager\<lparr>migs := [\<lparr>config = grp_a, basename = []\<rparr>,
                             \<lparr>config = grp_b, basename = []\<rparr>]\<rparr>"

definition inst :: "string \<Rightarrow> GceRef" where
  "inst n = \<lparr>Project = ''p1'', Zone = ''z1'', Name = n\<rparr>"

text \<open>The manager with the group \<^verbatim>\<open>grp-a\<close> registered and its base instance name recorded.\<close>

definition named_manager :: "nat GceManager" where
  "named_manager = sample_manager\<lparr>migs := [\<lparr>config = grp_a, basename = ''grp-a''\<rparr>]\<rparr>"

text \<open>The manager with a cache: two instances of \<^verbatim>\<open>grp-a\<close> and one of \<^verbatim>\<open>grp-b\<close>.\<close>

definition cached_manager :: "nat GceManager" where
  "cached_manager =
     registered_manager\<lparr>migCache := [inst ''grp-a-1'' \<mapsto> grp_a, inst ''grp-a-2'' \<mapsto> grp_a,
                                      inst ''grp-b-1'' \<mapsto> grp_b]\<rparr>"

section \<open>Properties\<close>

subsection \<open>What an operation leaves alone\<close>

lemma issue_frame:
  assumes "issue dp entry f m = (r, m')"
  shows "migs m' = migs m \<and> migCache m' = migCache m \<and> calls m' = calls m @ [entry r]"
  using assms by (auto simp: issue_def split: prod.splits)

lemma regenerateCache_loop_frame:
  "regenerateCache_loop dp snap c m = (r, m') \<Longrightarrow>
     migs m' = migs m \<and> migCache m' = migCache m \<and>
     filter mutating (calls m') = filter mutating (calls m)"
proof (induction snap arbitrary: c m r m')
  case Nil
  then show ?case by simp
next
  case (Cons migInfo rest)
  then show ?case
    by (auto simp: Let_def split: prod.splits sum.splits dest!: issue_frame)
qed

lemma regenerateCache_frame:
  "regenerateCache dp m = (r, m') \<Longrightarrow>
     migs m' = migs m \<and> filter mutating (calls m') = filter mutating (calls m)"
  by (auto simp: regenerateCache_def split: prod.splits sum.splits
           dest!: regenerateCache_loop_frame)

lemma GetMigForInstance_loop_frame:
  "GetMigForInstance_loop dp i snap m = (r, m') \<Longrightarrow>
     migs m' = migs m \<and> filter mutating (calls m') = filter mutating (calls m)"
  by (induction snap arbitrary: m)
     (auto split: if_splits prod.splits option.splits dest!: regenerateCache_frame)

lemma GetMigForInstance_frame:
  "GetMigForInstance dp i m = (r, m') \<Longrightarrow>
     migs m' = migs m \<and> filter mutating (calls m') = filter mutating (calls m)"
  by (auto simp: GetMigForInstance_def split: option.splits
           dest!: GetMigForInstance_loop_frame)

text \<open>
  C10. Neither \<open>GetMigForInstance\<close> nor \<open>regenerateCache\<close> changes the registry: after
  either, the list of records is the one before, so the registered identities, their
  order and the config of each record are the same.
\<close>

theorem lookup_and_regeneration_keep_registry:
  "migs (snd (GetMigForInstance dp i m)) = migs m \<and>
   migs (snd (regenerateCache dp m)) = migs m"
  using GetMigForInstance_frame [of dp i m] regenerateCache_frame [of dp m]
  by (metis prod.collapse)

subsection \<open>DeleteInstances\<close>

text \<open>
  C9. \<open>DeleteInstances\<close> on the empty list returns nil at once: the manager, the
  outside world and the log of requests are what they were, so there was no lookup, no
  regeneration and no request.
\<close>

theorem DeleteInstances_empty: "DeleteInstances dp [] m = (Returns None, m)"
  by (simp add: DeleteInstances_def)

subsection \<open>RegisterMig\<close>

lemma RegisterMig_loop_eq:
  "RegisterMig_loop mig rs u =
     (map (\<lambda>r. if GceRef (config r) = GceRef mig then r\<lparr>config := mig\<rparr> else r) rs,
      u \<or> GceRef mig \<in> set (map (\<lambda>r. GceRef (config r)) rs))"
  by (induction rs arbitrary: u) auto

lemma RegisterMig_result:
  "fst (RegisterMig dp mig m) = (GceRef mig \<notin> set (identities m)) \<and>
   migs (snd (RegisterMig dp mig m)) =
     map (\<lambda>r. if GceRef (config r) = GceRef mig then r\<lparr>config := mig\<rparr> else r) (migs m) @
     (if GceRef mig \<in> set (identities m) then [] else [\<lparr>config = mig, basename = []\<rparr>])"
  by (simp add: RegisterMig_def RegisterMig_loop_eq Let_def issue_def identities_def
           split: prod.splits)

text \<open>
  C8. \<open>RegisterMig\<close> returns a boolean, never an error, and neither that boolean nor
  the registry it leaves depends on the template builder: they are the same whatever the
  two calls \<^verbatim>\<open>getMigTemplate\<close> and \<^verbatim>\<open>buildNodeFromTemplate\<close> answer and whatever the state
  of the outside world is, that is, on a failure as on a success.
\<close>

theorem RegisterMig_ignores_template_builder:
  "fst (RegisterMig dp mig m) = fst (RegisterMig dp' mig (m\<lparr>cloud := c'\<rparr>)) \<and>
   migs (snd (RegisterMig dp mig m)) = migs (snd (RegisterMig dp' mig (m\<lparr>cloud := c'\<rparr>)))"
  by (simp add: RegisterMig_result identities_def)

lemma RegisterMig_ids:
  "identities (snd (RegisterMig dp mig m)) =
     identities m @ (if GceRef mig \<in> set (identities m) then [] else [GceRef mig])"
proof -
  have "map (\<lambda>r. GceRef (config r))
          (map (\<lambda>r. if GceRef (config r) = GceRef mig then r\<lparr>config := mig\<rparr> else r) rs) =
        map (\<lambda>r. GceRef (config r)) rs" for rs :: "migInformation list"
    by (induction rs) auto
  then show ?thesis
    by (simp add: identities_def RegisterMig_result [unfolded identities_def])
qed

lemma RegisterMig_config:
  "r \<in> set (migs (snd (RegisterMig dp mig m))) \<Longrightarrow>
     (if GceRef (config r) = GceRef mig then config r = mig else r \<in> set (migs m))"
  by (auto simp: RegisterMig_result split: if_splits)

lemma RegisterMigs_Cons:
  "RegisterMigs dp (g # gs) m =
     (fst (RegisterMig dp g m) # fst (RegisterMigs dp gs (snd (RegisterMig dp g m))),
      snd (RegisterMigs dp gs (snd (RegisterMig dp g m))))"
  by (simp add: case_prod_beta)

lemma RegisterMigs_invariant:
  "distinct (identities m) \<Longrightarrow>
     distinct (identities (snd (RegisterMigs dp gs m))) \<and>
     set (identities (snd (RegisterMigs dp gs m))) = set (identities m) \<union> GceRef ` set gs"
proof (induction gs arbitrary: m)
  case Nil
  then show ?case by simp
next
  case (Cons g gs)
  let ?m1 = "snd (RegisterMig dp g m)"
  have d: "distinct (identities ?m1)"
    using Cons.prems by (simp add: RegisterMig_ids)
  have s: "set (identities ?m1) = insert (GceRef g) (set (identities m))"
    by (auto simp: RegisterMig_ids)
  from Cons.IH [OF d] s show ?case
    by (simp only: RegisterMigs_Cons snd_conv) auto
qed

lemma RegisterMigs_config:
  "r \<in> set (migs (snd (RegisterMigs dp gs m))) \<Longrightarrow>
     (if GceRef (config r) \<in> GceRef ` set gs
      then config r = last (filter (\<lambda>g. GceRef g = GceRef (config r)) gs)
      else r \<in> set (migs m))"
proof (induction gs arbitrary: m)
  case Nil
  then show ?case by simp
next
  case (Cons g gs)
  let ?m1 = "snd (RegisterMig dp g m)"
  from Cons.prems have r: "r \<in> set (migs (snd (RegisterMigs dp gs ?m1)))"
    by (simp only: RegisterMigs_Cons snd_conv)
  note ih = Cons.IH [OF r]
  show ?case
  proof (cases "GceRef (config r) \<in> GceRef ` set gs")
    case True
    then have "filter (\<lambda>g. GceRef g = GceRef (config r)) gs \<noteq> []"
      by (force simp: filter_empty_conv)
    with True ih show ?thesis by simp
  next
    case False
    with ih have r1: "r \<in> set (migs ?m1)" by simp
    from False have "\<forall>g \<in> set gs. \<not> GceRef g = GceRef (config r)"
      by (metis image_eqI)
    then have "filter (\<lambda>g. GceRef g = GceRef (config r)) gs = []"
      by (rule filter_False)
    with RegisterMig_config [OF r1] False show ?thesis
      by (auto split: if_splits)
  qed
qed

lemma RegisterMigs_returns:
  "length (fst (RegisterMigs dp gs m)) = length gs \<and>
   (\<forall>k<length gs. fst (RegisterMigs dp gs m) ! k =
      (GceRef (gs ! k) \<notin> set (identities m) \<union> GceRef ` set (take k gs)))"
proof (induction gs arbitrary: m)
  case Nil
  then show ?case by simp
next
  case (Cons g gs)
  let ?m1 = "snd (RegisterMig dp g m)"
  have s: "set (identities ?m1) = insert (GceRef g) (set (identities m))"
    by (auto simp: RegisterMig_ids)
  have len: "length (fst (RegisterMigs dp (g # gs) m)) = length (g # gs)"
    using Cons.IH [of ?m1] by (simp only: RegisterMigs_Cons fst_conv) simp
  have "fst (RegisterMigs dp (g # gs) m) ! k =
      (GceRef ((g # gs) ! k) \<notin> set (identities m) \<union> GceRef ` set (take k (g # gs)))"
    if "k < length (g # gs)" for k
  proof (cases k)
    case 0
    then show ?thesis using RegisterMig_result [of dp g m]
      by (simp only: RegisterMigs_Cons fst_conv) simp
  next
    case (Suc j)
    with that have "j < length gs" by simp
    with Cons.IH [of ?m1] s Suc show ?thesis
      by (simp only: RegisterMigs_Cons fst_conv) simp
  qed
  with len show ?case by blast
qed

text \<open>
  C6. After any sequence of calls of \<open>RegisterMig\<close> on a manager whose registry was
  empty, the registry has exactly one record for each identity registered, the config of
  that record is the last one registered with that identity, and a call returns true
  exactly when no record had the identity before it.
\<close>

theorem RegisterMigs_one_record_per_identity:
  assumes "migs m = []"
  shows "distinct (identities (snd (RegisterMigs dp gs m))) \<and>
         set (identities (snd (RegisterMigs dp gs m))) = GceRef ` set gs \<and>
         (\<forall>r \<in> set (migs (snd (RegisterMigs dp gs m))).
            config r = last (filter (\<lambda>g. GceRef g = GceRef (config r)) gs)) \<and>
         length (fst (RegisterMigs dp gs m)) = length gs \<and>
         (\<forall>k<length gs. fst (RegisterMigs dp gs m) ! k =
            (GceRef (gs ! k) \<notin> GceRef ` set (take k gs))) \<and>
         (\<forall>mig m0. fst (RegisterMig dp mig (m0 :: 'a GceManager)) =
            (GceRef mig \<notin> set (identities m0)))"
proof -
  from assms have e: "identities m = []" by (simp add: identities_def)
  then have d: "distinct (identities m)" by simp
  have c: "config r = last (filter (\<lambda>g. GceRef g = GceRef (config r)) gs)"
    if "r \<in> set (migs (snd (RegisterMigs dp gs m)))" for r
    using RegisterMigs_config [OF that] assms by (simp split: if_splits)
  from RegisterMigs_invariant [OF d, of dp gs] RegisterMigs_returns [of dp gs m] e c
  show ?thesis by (simp add: RegisterMig_result)
qed

theorem RegisterMigs_one_record_per_identity_witness:
  "migs sample_manager = [] \<and>
   map config (migs (snd (RegisterMigs sample_deps [grp_a, grp_b, grp_a2] sample_manager))) =
     [grp_a2, grp_b] \<and>
   fst (RegisterMigs sample_deps [grp_a, grp_b, grp_a2] sample_manager) = [True, True, False] \<and>
   distinct (identities (snd (RegisterMigs sample_deps [grp_a, grp_b, grp_a2] sample_manager)))"
proof -
  have h: "migs sample_manager = []"
    by (simp add: sample_manager_def)
  have e: "map config (migs (snd (RegisterMigs sample_deps [grp_a, grp_b, grp_a2] sample_manager))) =
             [grp_a2, grp_b] \<and>
           fst (RegisterMigs sample_deps [grp_a, grp_b, grp_a2] sample_manager) =
             [True, True, False]"
    by (simp add: RegisterMig_def issue_def sample_deps_def sample_manager_def
          grp_a_def grp_b_def grp_a2_def)
  from RegisterMigs_one_record_per_identity [OF h, of sample_deps "[grp_a, grp_b, grp_a2]"]
  have "distinct (identities (snd (RegisterMigs sample_deps [grp_a, grp_b, grp_a2] sample_manager)))"
    by (rule conjunct1)
  with h e show ?thesis by (intro conjI) simp_all
qed

subsection \<open>regenerateCache\<close>

lemma issue_migCache_update:
  "issue dp entry f (m\<lparr>migCache := c0\<rparr>) =
     (fst (issue dp entry f m), (snd (issue dp entry f m))\<lparr>migCache := c0\<rparr>)"
  by (simp add: issue_def split: prod.splits)

lemma regenerateCache_loop_migCache_update:
  "regenerateCache_loop dp snap c (m\<lparr>migCache := c0\<rparr>) =
     (fst (regenerateCache_loop dp snap c m), (snd (regenerateCache_loop dp snap c m))\<lparr>migCache := c0\<rparr>)"
proof (induction snap arbitrary: c m)
  case Nil
  then show ?case by simp
next
  case (Cons migInfo rest)
  show ?case
    by (simp add: Let_def issue_migCache_update Cons.IH split: prod.splits sum.splits)
qed

lemma regenerateCache_result:
  "regenerateCache dp m =
     (case fst (regenerateCache_loop dp (getMigs m) Map.empty m) of
        Inl err \<Rightarrow> (Some err, snd (regenerateCache_loop dp (getMigs m) Map.empty m))
      | Inr (snapshot, newMigCache) \<Rightarrow>
          (None, (snd (regenerateCache_loop dp (getMigs m) Map.empty m))\<lparr>migCache := newMigCache\<rparr>))"
  by (simp add: regenerateCache_def split: prod.splits sum.splits)

text \<open>
  C5. \<open>regenerateCache\<close> returns an error exactly when the scan of the groups stopped
  with one (a failed request or a member URL that does not parse), and then the cache is
  the one installed before. When it returns nil, the cache is the map that the scan
  built from the empty map, and it is the same whatever the cache was before: nothing of
  the old cache is kept.
\<close>

theorem regenerateCache_atomic:
  "fst (regenerateCache dp m) =
     (case fst (regenerateCache_loop dp (getMigs m) Map.empty m) of
        Inl err \<Rightarrow> Some err | Inr built \<Rightarrow> None) \<and>
   (fst (regenerateCache dp m) \<noteq> None \<longrightarrow>
      migCache (snd (regenerateCache dp m)) = migCache m) \<and>
   (fst (regenerateCache dp m) = None \<longrightarrow>
      (\<exists>snapshot. fst (regenerateCache_loop dp (getMigs m) Map.empty m) =
         Inr (snapshot, migCache (snd (regenerateCache dp m)))) \<and>
      migCache (snd (regenerateCache dp m)) =
        migCache (snd (regenerateCache dp (m\<lparr>migCache := c0\<rparr>))))"
proof -
  obtain r m1 where l: "regenerateCache_loop dp (getMigs m) Map.empty m = (r, m1)"
    by (cases "regenerateCache_loop dp (getMigs m) Map.empty m")
  from regenerateCache_loop_frame [OF l] have f: "migCache m1 = migCache m" by simp
  have g: "getMigs (m\<lparr>migCache := c0\<rparr>) = getMigs m" by (simp add: getMigs_def)
  show ?thesis
    by (cases r)
       (auto simp: regenerateCache_result g regenerateCache_loop_migCache_update l f)
qed

theorem regenerateCache_atomic_witness:
  "fst (regenerateCache failing_deps registered_manager) =
     Some (CollaboratorError ''unavailable'') \<and>
   migCache (snd (regenerateCache failing_deps registered_manager)) =
     migCache registered_manager \<and>
   fst (regenerateCache sample_deps (registered_manager\<lparr>migCache := [inst ''gone'' \<mapsto> grp_b]\<rparr>)) = None \<and>
   migCache (snd (regenerateCache sample_deps
                    (registered_manager\<lparr>migCache := [inst ''gone'' \<mapsto> grp_b]\<rparr>))) =
     migCache (snd (regenerateCache sample_deps registered_manager))"
proof -
  have a: "fst (regenerateCache failing_deps registered_manager) =
             Some (CollaboratorError ''unavailable'')"
    by (simp add: regenerateCache_def getMigs_def issue_def Let_def failing_deps_def sample_deps_def
          registered_manager_def sample_manager_def grp_a_def grp_b_def)
  have b: "fst (regenerateCache sample_deps (registered_manager\<lparr>migCache := [inst ''gone'' \<mapsto> grp_b]\<rparr>)) = None"
    by (simp add: regenerateCache_def getMigs_def issue_def Let_def sample_deps_def
          registered_manager_def sample_manager_def grp_a_def grp_b_def)
  from a regenerateCache_atomic [of failing_deps registered_manager]
  have c: "migCache (snd (regenerateCache failing_deps registered_manager)) =
             migCache registered_manager"
    by simp
  from b regenerateCache_atomic [of sample_deps "registered_manager\<lparr>migCache := [inst ''gone'' \<mapsto> grp_b]\<rparr>"
      "Map.empty"]
  have "migCache (snd (regenerateCache sample_deps
                    (registered_manager\<lparr>migCache := [inst ''gone'' \<mapsto> grp_b]\<rparr>))) =
     migCache (snd (regenerateCache sample_deps
                    (registered_manager\<lparr>migCache := [inst ''gone'' \<mapsto> grp_b], migCache := Map.empty\<rparr>)))"
    by simp
  moreover have "registered_manager\<lparr>migCache := [inst ''gone'' \<mapsto> grp_b], migCache := Map.empty\<rparr> =
      registered_manager"
    by (simp add: registered_manager_def sample_manager_def)
  ultimately have d: "migCache (snd (regenerateCache sample_deps
                    (registered_manager\<lparr>migCache := [inst ''gone'' \<mapsto> grp_b]\<rparr>))) =
     migCache (snd (regenerateCache sample_deps registered_manager))"
    by simp
  from a b c d show ?thesis by simp
qed

text \<open>
  C3. The registered groups \<^verbatim>\<open>grp-a\<close> and \<^verbatim>\<open>grp-b\<close> have the base instance names
  \<^verbatim>\<open>grp-a\<close> and \<^verbatim>\<open>grp-b\<close>. A regeneration succeeds and fills the cache, the copies made
  by \<open>getMigs\<close> hold the two names, and the records of the registry still have the empty
  basename.
\<close>

theorem regenerateCache_loses_basename:
  "fst (regenerateCache sample_deps registered_manager) = None \<and>
   map basename (migs (snd (regenerateCache sample_deps registered_manager))) = [[], []] \<and>
   map basename (fst (projr (fst (regenerateCache_loop sample_deps (getMigs registered_manager)
                                    Map.empty registered_manager)))) = [''grp-a'', ''grp-b''] \<and>
   migCache (snd (regenerateCache sample_deps registered_manager)) (inst ''grp-a-1'') = Some grp_a"
  by (simp add: regenerateCache_def getMigs_def issue_def Let_def sample_deps_def
        registered_manager_def sample_manager_def grp_a_def grp_b_def inst_def)

subsection \<open>waitForOp\<close>

declare waitForOp_loop.simps [simp del]

lemma time_Sleep_calls: "calls (time_Sleep dp d m) = calls m"
  by (simp add: time_Sleep_def)

lemma waitForOp_loop_polls:
  "\<exists>polls.
     calls (snd (waitForOp_loop dp operation project zn start m)) =
       calls m @ map (ZoneOperationsGet project zn (Operation_Name operation)) polls \<and>
     (case fst (waitForOp_loop dp operation project zn start m) of
        None \<Rightarrow> polls \<noteq> [] \<and> reports_done (last polls) \<and>
                (\<forall>r \<in> set (butlast polls). \<not> reports_done r)
      | Some e \<Rightarrow> e = OperationTimeout (Operation_Name operation) (TargetLink operation) \<and>
                  (\<forall>r \<in> set polls. \<not> reports_done r))"
proof (induction dp operation project zn start m rule: waitForOp_loop.induct)
  case (1 dp operation project zn start m)
  let ?entry = "ZoneOperationsGet project zn (Operation_Name operation)"
  show ?case
  proof (cases "clock m - start < operationWaitTimeout")
    case False
    then have "waitForOp_loop dp operation project zn start m =
        (Some (OperationTimeout (Operation_Name operation) (TargetLink operation)), m)"
      by (subst waitForOp_loop.simps) simp
    then show ?thesis by (intro exI [of _ "[]"]) simp
  next
    case True
    obtain r m1 where i: "issue dp ?entry
        (ZoneOperations_Get dp project zn (Operation_Name operation)) m = (r, m1)"
      by (cases "issue dp ?entry (ZoneOperations_Get dp project zn (Operation_Name operation)) m")
    from issue_frame [OF i] have c1: "calls m1 = calls m @ [?entry r]" by simp
    show ?thesis
    proof (cases "reports_done r")
      case True
      then obtain op where r: "r = Inr op" and d: "Status op = ''DONE''"
        by (cases r) auto
      from \<open>clock m - start < operationWaitTimeout\<close> i r d
      have "waitForOp_loop dp operation project zn start m = (None, m1)"
        by (subst waitForOp_loop.simps) simp
      with c1 True show ?thesis by (intro exI [of _ "[r]"]) simp
    next
      case False
      let ?m2 = "time_Sleep dp operationPollInterval m1"
      from \<open>clock m - start < operationWaitTimeout\<close> i False
      have step: "waitForOp_loop dp operation project zn start m =
                  waitForOp_loop dp operation project zn start ?m2"
        by (subst waitForOp_loop.simps) (cases r; simp)
      have "\<exists>polls.
          calls (snd (waitForOp_loop dp operation project zn start ?m2)) =
            calls ?m2 @ map ?entry polls \<and>
          (case fst (waitForOp_loop dp operation project zn start ?m2) of
             None \<Rightarrow> polls \<noteq> [] \<and> reports_done (last polls) \<and>
                     (\<forall>r \<in> set (butlast polls). \<not> reports_done r)
           | Some e \<Rightarrow> e = OperationTimeout (Operation_Name operation) (TargetLink operation) \<and>
                       (\<forall>r \<in> set polls. \<not> reports_done r))"
      proof (cases r)
        case (Inl err)
        from "1.IH"(1) [OF \<open>clock m - start < operationWaitTimeout\<close> i [symmetric] Inl]
        show ?thesis .
      next
        case (Inr op)
        with False have "Status op \<noteq> ''DONE''" by simp
        from "1.IH"(2) [OF \<open>clock m - start < operationWaitTimeout\<close> i [symmetric] Inr this]
        show ?thesis .
      qed
      then obtain polls where
        p: "calls (snd (waitForOp_loop dp operation project zn start ?m2)) =
              calls ?m2 @ map ?entry polls"
        and q: "(case fst (waitForOp_loop dp operation project zn start ?m2) of
             None \<Rightarrow> polls \<noteq> [] \<and> reports_done (last polls) \<and>
                     (\<forall>r \<in> set (butlast polls). \<not> reports_done r)
           | Some e \<Rightarrow> e = OperationTimeout (Operation_Name operation) (TargetLink operation) \<and>
                       (\<forall>r \<in> set polls. \<not> reports_done r))"
        by blast
      from p c1 have "calls (snd (waitForOp_loop dp operation project zn start m)) =
          calls m @ map ?entry (r # polls)"
        by (simp add: step time_Sleep_calls)
      moreover from q False
      have "(case fst (waitForOp_loop dp operation project zn start m) of
             None \<Rightarrow> r # polls \<noteq> [] \<and> reports_done (last (r # polls)) \<and>
                     (\<forall>r \<in> set (butlast (r # polls)). \<not> reports_done r)
           | Some e \<Rightarrow> e = OperationTimeout (Operation_Name operation) (TargetLink operation) \<and>
                       (\<forall>r \<in> set (r # polls). \<not> reports_done r))"
        by (simp add: step split: option.splits)
      ultimately show ?thesis by blast
    qed
  qed
qed

lemma waitForOp_frame:
  "filter mutating (calls (snd (waitForOp dp operation project zn m))) =
   filter mutating (calls m)"
proof -
  from waitForOp_loop_polls [of dp operation project zn "clock m" m]
  obtain polls where "calls (snd (waitForOp dp operation project zn m)) =
       calls m @ map (ZoneOperationsGet project zn (Operation_Name operation)) polls"
    unfolding waitForOp_def by blast
  then show ?thesis by (simp add: filter_empty_conv)
qed



subsection \<open>GetMigForInstance\<close>

lemma getMigs_eq: "getMigs m = migs m"
proof -
  have eta: "\<lparr>config = config r, basename = basename r\<rparr> = r" for r :: migInformation
    by (cases r) simp
  show ?thesis unfolding getMigs_def by (rule map_idI) (rule eta)
qed

lemma GetMigForInstance_loop_no_match:
  "\<forall>mig \<in> set snap. \<not> (Project (GceRef (config mig)) = Project i \<and>
       Zone (GceRef (config mig)) = Zone i \<and> strings_HasPrefix (Name i) (basename mig)) \<Longrightarrow>
   GetMigForInstance_loop dp i snap m = (Inr None, m)"
  by (induction snap) auto

lemma GetMigForInstance_loop_match:
  "\<exists>mig \<in> set snap. Project (GceRef (config mig)) = Project i \<and>
       Zone (GceRef (config mig)) = Zone i \<and> strings_HasPrefix (Name i) (basename mig) \<Longrightarrow>
   GetMigForInstance_loop dp i snap m =
     (case regenerateCache dp m of
        (Some err, m1) \<Rightarrow> (Inl (LookupError i err), m1)
      | (None, m1) \<Rightarrow>
          (case migCache m1 i of
             Some found \<Rightarrow> (Inr (Some found), m1)
           | None \<Rightarrow> (Inl (NotInAnyMig i), m1)))"
proof (induction snap)
  case Nil
  then show ?case by simp
next
  case (Cons mig rest)
  show ?case
  proof (cases "Project (GceRef (config mig)) = Project i \<and>
       Zone (GceRef (config mig)) = Zone i \<and> strings_HasPrefix (Name i) (basename mig)")
    case True
    then show ?thesis by simp
  next
    case False
    with Cons.prems have "\<exists>mig \<in> set rest. Project (GceRef (config mig)) = Project i \<and>
       Zone (GceRef (config mig)) = Zone i \<and> strings_HasPrefix (Name i) (basename mig)"
      by auto
    from Cons.IH [OF this] False show ?thesis by simp
  qed
qed

text \<open>
  C2, as amended. For an instance that is not in the cache: if some record of the
  registry has the project and the zone of the instance and a basename that is a
  non-empty prefix of its name, \<open>GetMigForInstance\<close> runs \<open>regenerateCache\<close> once and
  looks the instance up in the new cache; it returns the error of the regeneration,
  wrapped, if that failed, the group found if the instance is now in the cache, and
  otherwise the error that the instance belongs to no configured group. If no record has
  the project and zone of the instance and a basename that is a prefix of its name, it
  returns nil and no error and leaves the manager, the outside world and the log of
  requests as they were: there was no regeneration.
\<close>

theorem GetMigForInstance_cache_miss:
  assumes "migCache m i = None"
  shows "((\<exists>mig \<in> set (migs m). Project (GceRef (config mig)) = Project i \<and>
            Zone (GceRef (config mig)) = Zone i \<and> basename mig \<noteq> [] \<and>
            strings_HasPrefix (Name i) (basename mig)) \<longrightarrow>
          GetMigForInstance dp i m =
            (case regenerateCache dp m of
               (Some err, m1) \<Rightarrow> (Inl (LookupError i err), m1)
             | (None, m1) \<Rightarrow>
                 (case migCache m1 i of
                    Some found \<Rightarrow> (Inr (Some found), m1)
                  | None \<Rightarrow> (Inl (NotInAnyMig i), m1)))) \<and>
         (\<not> (\<exists>mig \<in> set (migs m). Project (GceRef (config mig)) = Project i \<and>
            Zone (GceRef (config mig)) = Zone i \<and>
            strings_HasPrefix (Name i) (basename mig)) \<longrightarrow>
          GetMigForInstance dp i m = (Inr None, m))"
proof (intro conjI impI)
  assume "\<exists>mig \<in> set (migs m). Project (GceRef (config mig)) = Project i \<and>
            Zone (GceRef (config mig)) = Zone i \<and> basename mig \<noteq> [] \<and>
            strings_HasPrefix (Name i) (basename mig)"
  then have "\<exists>mig \<in> set (getMigs m). Project (GceRef (config mig)) = Project i \<and>
       Zone (GceRef (config mig)) = Zone i \<and> strings_HasPrefix (Name i) (basename mig)"
    unfolding getMigs_eq by auto
  from GetMigForInstance_loop_match [OF this] assms
  show "GetMigForInstance dp i m =
            (case regenerateCache dp m of
               (Some err, m1) \<Rightarrow> (Inl (LookupError i err), m1)
             | (None, m1) \<Rightarrow>
                 (case migCache m1 i of
                    Some found \<Rightarrow> (Inr (Some found), m1)
                  | None \<Rightarrow> (Inl (NotInAnyMig i), m1)))"
    by (simp add: GetMigForInstance_def)
next
  assume "\<not> (\<exists>mig \<in> set (migs m). Project (GceRef (config mig)) = Project i \<and>
            Zone (GceRef (config mig)) = Zone i \<and>
            strings_HasPrefix (Name i) (basename mig))"
  then have "\<forall>mig \<in> set (getMigs m). \<not> (Project (GceRef (config mig)) = Project i \<and>
       Zone (GceRef (config mig)) = Zone i \<and> strings_HasPrefix (Name i) (basename mig))"
    unfolding getMigs_eq by auto
  from GetMigForInstance_loop_no_match [OF this] assms
  show "GetMigForInstance dp i m = (Inr None, m)"
    by (simp add: GetMigForInstance_def)
qed

text \<open>
  C2 as stated fails. The record of \<^verbatim>\<open>grp-a\<close> has the basename \<^verbatim>\<open>grp-a\<close>, a non-empty
  prefix of the name of the instance \<^verbatim>\<open>grp-a-9\<close> of the same project and zone, which is
  not in the cache. The regeneration succeeds and the instance is still absent: the
  lookup returns an error, not nil.
\<close>

theorem GetMigForInstance_error_when_still_absent:
  "migCache named_manager (inst ''grp-a-9'') = None \<and>
   migs named_manager = [\<lparr>config = grp_a, basename = ''grp-a''\<rparr>] \<and>
   Project (GceRef grp_a) = Project (inst ''grp-a-9'') \<and>
   Zone (GceRef grp_a) = Zone (inst ''grp-a-9'') \<and>
   strings_HasPrefix (Name (inst ''grp-a-9'')) ''grp-a'' \<and>
   fst (regenerateCache sample_deps named_manager) = None \<and>
   migCache (snd (regenerateCache sample_deps named_manager)) (inst ''grp-a-9'') = None \<and>
   fst (GetMigForInstance sample_deps (inst ''grp-a-9'') named_manager) =
     Inl (NotInAnyMig (inst ''grp-a-9''))"
  by (simp add: GetMigForInstance_def regenerateCache_def getMigs_def issue_def Let_def
        strings_HasPrefix_def sample_deps_def named_manager_def sample_manager_def
        grp_a_def inst_def)

theorem GetMigForInstance_cache_miss_witness:
  "migCache named_manager (inst ''grp-a-1'') = None \<and>
   fst (GetMigForInstance sample_deps (inst ''grp-a-1'') named_manager) = Inr (Some grp_a) \<and>
   migCache named_manager \<lparr>Project = ''p2'', Zone = ''z1'', Name = ''grp-a-1''\<rparr> = None \<and>
   GetMigForInstance sample_deps \<lparr>Project = ''p2'', Zone = ''z1'', Name = ''grp-a-1''\<rparr>
     named_manager = (Inr None, named_manager)"
proof -
  have a: "migCache named_manager (inst ''grp-a-1'') = None"
    by (simp add: named_manager_def sample_manager_def)
  have b: "migCache named_manager \<lparr>Project = ''p2'', Zone = ''z1'', Name = ''grp-a-1''\<rparr> = None"
    by (simp add: named_manager_def sample_manager_def)
  have r: "regenerateCache sample_deps named_manager =
      (None, snd (regenerateCache sample_deps named_manager)) \<and>
      migCache (snd (regenerateCache sample_deps named_manager)) (inst ''grp-a-1'') = Some grp_a"
    by (simp add: regenerateCache_def getMigs_def issue_def Let_def
        sample_deps_def named_manager_def sample_manager_def grp_a_def inst_def)
  have "\<exists>mig \<in> set (migs named_manager). Project (GceRef (config mig)) = Project (inst ''grp-a-1'') \<and>
            Zone (GceRef (config mig)) = Zone (inst ''grp-a-1'') \<and> basename mig \<noteq> [] \<and>
            strings_HasPrefix (Name (inst ''grp-a-1'')) (basename mig)"
    by (simp add: named_manager_def sample_manager_def grp_a_def inst_def strings_HasPrefix_def)
  with GetMigForInstance_cache_miss [OF a, of sample_deps]
  have "GetMigForInstance sample_deps (inst ''grp-a-1'') named_manager =
            (case regenerateCache sample_deps named_manager of
               (Some err, m1) \<Rightarrow> (Inl (LookupError (inst ''grp-a-1'') err), m1)
             | (None, m1) \<Rightarrow>
                 (case migCache m1 (inst ''grp-a-1'') of
                    Some found \<Rightarrow> (Inr (Some found), m1)
                  | None \<Rightarrow> (Inl (NotInAnyMig (inst ''grp-a-1'')), m1)))"
    by (rule conjunct1 [THEN mp])
  with r have c: "fst (GetMigForInstance sample_deps (inst ''grp-a-1'') named_manager) =
      Inr (Some grp_a)"
    by (simp split: prod.splits)
  have "\<not> (\<exists>mig \<in> set (migs named_manager).
          Project (GceRef (config mig)) = Project \<lparr>Project = ''p2'', Zone = ''z1'', Name = ''grp-a-1''\<rparr> \<and>
          Zone (GceRef (config mig)) = Zone \<lparr>Project = ''p2'', Zone = ''z1'', Name = ''grp-a-1''\<rparr> \<and>
          strings_HasPrefix (Name \<lparr>Project = ''p2'', Zone = ''z1'', Name = ''grp-a-1''\<rparr>) (basename mig))"
    by (simp add: named_manager_def sample_manager_def grp_a_def)
  with GetMigForInstance_cache_miss [OF b, of sample_deps]
  have d: "GetMigForInstance sample_deps \<lparr>Project = ''p2'', Zone = ''z1'', Name = ''grp-a-1''\<rparr>
     named_manager = (Inr None, named_manager)"
    by (rule conjunct2 [THEN mp])
  from a b c d show ?thesis by (intro conjI)
qed

subsection \<open>DeleteInstances on a list that is not empty\<close>

lemma lookups_Cons:
  "lookups dp (i # is) m =
     (fst (GetMigForInstance dp i m) # fst (lookups dp is (snd (GetMigForInstance dp i m))),
      snd (lookups dp is (snd (GetMigForInstance dp i m))))"
  by (simp add: case_prod_beta)

lemma lookups_frame:
  "filter mutating (calls (snd (lookups dp is m))) = filter mutating (calls m)"
proof (induction "is" arbitrary: m)
  case Nil
  then show ?case by simp
next
  case (Cons i "is")
  from GetMigForInstance_frame [of dp i m "fst (GetMigForInstance dp i m)" "snd (GetMigForInstance dp i m)"]
  have "filter mutating (calls (snd (GetMigForInstance dp i m))) = filter mutating (calls m)"
    by simp
  with Cons.IH [of "snd (GetMigForInstance dp i m)"] show ?case
    by (simp only: lookups_Cons snd_conv)
qed

lemma DeleteInstances_loop_frame:
  "filter mutating (calls (snd (DeleteInstances_loop dp G is m))) = filter mutating (calls m)"
proof (induction "is" arbitrary: m)
  case Nil
  then show ?case by simp
next
  case (Cons i "is")
  obtain r m1 where g: "GetMigForInstance dp i m = (r, m1)"
    by (cases "GetMigForInstance dp i m")
  from GetMigForInstance_frame [OF g]
  have f: "filter mutating (calls m1) = filter mutating (calls m)" by simp
  show ?case
  proof (cases r)
    case (Inl err)
    with g f show ?thesis by simp
  next
    case (Inr mig)
    with g f Cons.IH [of m1] show ?thesis by simp
  qed
qed

lemma DeleteInstances_loop_same:
  "\<forall>r \<in> set (fst (lookups dp is m)). r = Inr G \<Longrightarrow>
   DeleteInstances_loop dp G is m = (None, snd (lookups dp is m))"
proof (induction "is" arbitrary: m)
  case Nil
  then show ?case by simp
next
  case (Cons i "is")
  from Cons.prems have a: "fst (GetMigForInstance dp i m) = Inr G"
    and b: "\<forall>r \<in> set (fst (lookups dp is (snd (GetMigForInstance dp i m)))). r = Inr G"
    by (simp_all only: lookups_Cons fst_conv) simp_all
  obtain m1 where g: "GetMigForInstance dp i m = (Inr G, m1)"
    using a by (cases "GetMigForInstance dp i m") simp
  with Cons.IH [of m1] b show ?case
    by (simp add: case_prod_beta)
qed

lemma DeleteInstances_loop_differ:
  "\<not> (\<forall>r \<in> set (fst (lookups dp is m)). r = Inr G) \<Longrightarrow>
   \<exists>e. fst (DeleteInstances_loop dp G is m) = Some e \<and>
       (e = NotSameMig \<or> Inl e \<in> set (fst (lookups dp is m))) \<and>
       ((\<forall>r \<in> set (fst (lookups dp is m)). \<exists>g. r = Inr g) \<longrightarrow> e = NotSameMig)"
proof (induction "is" arbitrary: m)
  case Nil
  then show ?case by simp
next
  case (Cons i "is")
  obtain r m1 where g: "GetMigForInstance dp i m = (r, m1)"
    by (cases "GetMigForInstance dp i m")
  then have l: "fst (lookups dp (i # is) m) = r # fst (lookups dp is m1)"
    by (simp add: case_prod_beta)
  show ?case
  proof (cases r)
    case (Inl err)
    with g l show ?thesis by auto
  next
    case (Inr mig)
    show ?thesis
    proof (cases "mig = G")
      case False
      with g l Inr show ?thesis by auto
    next
      case True
      with Cons.prems l Inr have "\<not> (\<forall>r \<in> set (fst (lookups dp is m1)). r = Inr G)"
        by simp
      from Cons.IH [OF this] obtain e where
        e: "fst (DeleteInstances_loop dp G is m1) = Some e"
           "e = NotSameMig \<or> Inl e \<in> set (fst (lookups dp is m1))"
           "(\<forall>r \<in> set (fst (lookups dp is m1)). \<exists>g. r = Inr g) \<longrightarrow> e = NotSameMig"
        by blast
      have "fst (DeleteInstances_loop dp G (i # is) m) = Some e"
        using g Inr True e(1) by simp
      with e(2,3) l show ?thesis by auto
    qed
  qed
qed

text \<open>
  The requests and the errors of \<open>DeleteInstances\<close> on a list that is not empty, from
  the results \<open>lookups\<close> gives for the first instance followed by the whole list.
\<close>

lemma DeleteInstances_requests:
  assumes "instances \<noteq> []"
  shows
    "((\<forall>r \<in> set (fst (lookups dp (hd instances # instances) m)). r = Inr (Some G)) \<longrightarrow>
        filter mutating (calls (snd (DeleteInstances dp instances m))) =
          filter mutating (calls m) @
          [IgmDeleteInstances (Project (GceRef G)) (Zone (GceRef G)) (Name (GceRef G))
             (map (\<lambda>i. GenerateInstanceUrl dp (Project i) (Zone i) (Name i)) instances)]) \<and>
     (\<not> (\<exists>G. \<forall>r \<in> set (fst (lookups dp (hd instances # instances) m)). r = Inr (Some G)) \<longrightarrow>
        filter mutating (calls (snd (DeleteInstances dp instances m))) =
          filter mutating (calls m)) \<and>
     ((\<forall>r \<in> set (fst (lookups dp (hd instances # instances) m)). \<exists>g. r = Inr g) \<and>
      (\<exists>r \<in> set (fst (lookups dp (hd instances # instances) m)).
         r \<noteq> hd (fst (lookups dp (hd instances # instances) m))) \<longrightarrow>
        fst (DeleteInstances dp instances m) = Returns (Some NotSameMig)) \<and>
     ((\<exists>e. Inl e \<in> set (fst (lookups dp (hd instances # instances) m))) \<longrightarrow>
        (\<exists>e. fst (DeleteInstances dp instances m) = Returns (Some e) \<and>
             (e = NotSameMig \<or> Inl e \<in> set (fst (lookups dp (hd instances # instances) m)))))"
proof -
  from assms obtain i "is" where inst: "instances = i # is"
    by (cases instances) auto
  obtain r0 m1 where g: "GetMigForInstance dp i m = (r0, m1)"
    by (cases "GetMigForInstance dp i m")
  define rs1 where "rs1 = fst (lookups dp (i # is) m1)"
  define rs where "rs = fst (lookups dp (hd instances # instances) m)"
  define req where "req = map (\<lambda>i. GenerateInstanceUrl dp (Project i) (Zone i) (Name i)) instances"
  have rs: "rs = r0 # rs1"
    unfolding rs_def rs1_def inst using g by (simp add: case_prod_beta)
  from GetMigForInstance_frame [OF g]
  have f1: "filter mutating (calls m1) = filter mutating (calls m)" by simp
  define out where "out = fst (DeleteInstances dp instances m)"
  define mut where "mut = filter mutating (calls (snd (DeleteInstances dp instances m)))"
  define old where "old = filter mutating (calls m)"
  define del where "del = (\<lambda>cm :: Mig. IgmDeleteInstances (Project (GceRef cm)) (Zone (GceRef cm))
                                   (Name (GceRef cm)) req)"
  have c: "((\<forall>r \<in> set rs. r = Inr (Some G)) \<longrightarrow> mut = old @ [del G]) \<and>
     (\<not> (\<exists>G. \<forall>r \<in> set rs. r = Inr (Some G)) \<longrightarrow> mut = old) \<and>
     ((\<forall>r \<in> set rs. \<exists>g. r = Inr g) \<and> (\<exists>r \<in> set rs. r \<noteq> hd rs) \<longrightarrow>
        out = Returns (Some NotSameMig)) \<and>
     ((\<exists>e. Inl e \<in> set rs) \<longrightarrow>
        (\<exists>e. out = Returns (Some e) \<and> (e = NotSameMig \<or> Inl e \<in> set rs)))"
  proof (cases r0)
    case (Inl e0)
    with g have "DeleteInstances dp instances m = (Returns (Some e0), m1)"
      by (simp add: DeleteInstances_def inst)
    with f1 have o: "out = Returns (Some e0)" and u: "mut = old"
      by (simp_all add: out_def mut_def old_def)
    have r: "Inl e0 \<in> set rs" using rs Inl by simp
    have c1: "(\<forall>r \<in> set rs. r = Inr (Some G)) \<longrightarrow> mut = old @ [del G]"
      using r by (metis sum.distinct(1))
    have c3: "(\<forall>r \<in> set rs. \<exists>g. r = Inr g) \<and> (\<exists>r \<in> set rs. r \<noteq> hd rs) \<longrightarrow>
        out = Returns (Some NotSameMig)"
      using r by (metis sum.distinct(1))
    have c4: "(\<exists>e. Inl e \<in> set rs) \<longrightarrow>
        (\<exists>e. out = Returns (Some e) \<and> (e = NotSameMig \<or> Inl e \<in> set rs))"
      using r o by metis
    from u have c2: "\<not> (\<exists>G. \<forall>r \<in> set rs. r = Inr (Some G)) \<longrightarrow> mut = old"
      by (rule_tac impI)
    show ?thesis by (rule conjI [OF c1 conjI [OF c2 conjI [OF c3 c4]]])
  next
    case (Inr g0)
    show ?thesis
    proof (cases "\<forall>r \<in> set rs1. r = Inr g0")
      case True
      then have same: "DeleteInstances_loop dp g0 (i # is) m1 = (None, snd (lookups dp (i # is) m1))"
        unfolding rs1_def by (rule DeleteInstances_loop_same)
      let ?m2 = "snd (lookups dp (i # is) m1)"
      have f2: "filter mutating (calls ?m2) = old"
        using lookups_frame [of dp "i # is" m1] f1 by (simp only: old_def)
      from True rs Inr have all: "\<forall>r \<in> set rs. r = Inr g0" by simp
      have hd: "hd rs = Inr g0" using rs Inr by simp
      have c3: "(\<forall>r \<in> set rs. \<exists>g. r = Inr g) \<and> (\<exists>r \<in> set rs. r \<noteq> hd rs) \<longrightarrow>
          out = Returns (Some NotSameMig)"
        using all hd by metis
      have c4: "(\<exists>e. Inl e \<in> set rs) \<longrightarrow>
          (\<exists>e. out = Returns (Some e) \<and> (e = NotSameMig \<or> Inl e \<in> set rs))"
        using all by (metis sum.distinct(1))
      have r0in: "Inr g0 \<in> set rs" using rs Inr by simp
      show ?thesis
      proof (cases g0)
        case None
        with g Inr same have "DeleteInstances dp instances m = (Panics, ?m2)"
          by (simp add: DeleteInstances_def inst Let_def del: DeleteInstances_loop.simps)
        with f2 have u: "mut = old" by (simp add: mut_def)
        have "Inr None \<in> set rs" using r0in None by simp
        then have c1: "(\<forall>r \<in> set rs. r = Inr (Some G)) \<longrightarrow> mut = old @ [del G]"
          by (metis option.distinct(1) sum.inject(2))
        from u have c2: "\<not> (\<exists>G. \<forall>r \<in> set rs. r = Inr (Some G)) \<longrightarrow> mut = old"
      by (rule_tac impI)
    show ?thesis by (rule conjI [OF c1 conjI [OF c2 conjI [OF c3 c4]]])
      next
        case (Some cm)
        let ?rq = "map (\<lambda>i. GenerateInstanceUrl dp (Project i) (Zone i) (Name i)) (i # is)"
        obtain r3 m3 where i3: "issue dp (\<lambda>_. IgmDeleteInstances (Project (GceRef cm))
                                      (Zone (GceRef cm)) (Name (GceRef cm)) ?rq)
                            (InstanceGroupManagers_DeleteInstances dp (Project (GceRef cm))
                               (Zone (GceRef cm)) (Name (GceRef cm)) ?rq) ?m2 = (r3, m3)"
          by (cases "issue dp (\<lambda>_. IgmDeleteInstances (Project (GceRef cm))
                                      (Zone (GceRef cm)) (Name (GceRef cm)) ?rq)
                            (InstanceGroupManagers_DeleteInstances dp (Project (GceRef cm))
                               (Zone (GceRef cm)) (Name (GceRef cm)) ?rq) ?m2")
        from issue_frame [OF i3] f2
        have f3: "filter mutating (calls m3) = old @ [del cm]"
          by (simp add: del_def req_def inst)
        have "filter mutating (calls (snd (DeleteInstances dp instances m))) =
                filter mutating (calls m3)"
          using g Inr same Some i3
          by (cases r3)
             (simp_all add: DeleteInstances_def inst Let_def case_prod_beta
                waitForOp_frame del: DeleteInstances_loop.simps list.map)
        with f3 have u: "mut = old @ [del cm]" by (simp only: mut_def)
        have in0: "Inr (Some cm) \<in> set rs" using r0in Some by simp
        have c1: "(\<forall>r \<in> set rs. r = Inr (Some G)) \<longrightarrow> mut = old @ [del G]"
        proof
          assume "\<forall>r \<in> set rs. r = Inr (Some G)"
          from this in0 have "(Inr (Some cm) :: error + Mig option) = Inr (Some G)" by (rule bspec)
          then have "cm = G" by (simp only: sum.inject option.inject)
          with u show "mut = old @ [del G]" by (simp only:)
        qed
        have "\<forall>r \<in> set rs. r = Inr (Some cm)" using all Some by (simp only:)
        then have c2: "\<not> (\<exists>G. \<forall>r \<in> set rs. r = Inr (Some G)) \<longrightarrow> mut = old"
          by (rule_tac impI) (erule notE, rule exI)
        show ?thesis by (rule conjI [OF c1 conjI [OF c2 conjI [OF c3 c4]]])
      qed
    next
      case False
      then have "\<not> (\<forall>r \<in> set (fst (lookups dp (i # is) m1)). r = Inr g0)"
        unfolding rs1_def .
      from DeleteInstances_loop_differ [OF this] obtain e where
        e1: "fst (DeleteInstances_loop dp g0 (i # is) m1) = Some e"
        and e2: "e = NotSameMig \<or> Inl e \<in> set rs1"
        and e3: "(\<forall>r \<in> set rs1. \<exists>g. r = Inr g) \<longrightarrow> e = NotSameMig"
        unfolding rs1_def by (elim exE conjE)
      let ?m2 = "snd (DeleteInstances_loop dp g0 (i # is) m1)"
      have f2: "filter mutating (calls ?m2) = old"
        using DeleteInstances_loop_frame [of dp g0 "i # is" m1] f1 by (simp only: old_def)
      from e1 g Inr have R: "DeleteInstances dp instances m = (Returns (Some e), ?m2)"
        by (simp add: DeleteInstances_def inst Let_def case_prod_beta
              del: DeleteInstances_loop.simps)
      with f2 have o: "out = Returns (Some e)" and u: "mut = old"
        by (simp_all add: out_def mut_def)
      from False obtain x where x: "x \<in> set rs1" "x \<noteq> Inr g0" by blast
      have sub: "set rs1 \<subseteq> set rs" using rs by auto
      have r0in: "Inr g0 \<in> set rs" using rs Inr by simp
      have c1: "(\<forall>r \<in> set rs. r = Inr (Some G)) \<longrightarrow> mut = old @ [del G]"
      proof
        assume a: "\<forall>r \<in> set rs. r = Inr (Some G)"
        from a r0in have "Inr g0 = (Inr (Some G) :: error + Mig option)" by (rule bspec)
        moreover from a x(1) sub have "x = Inr (Some G)" by blast
        ultimately have "x = Inr g0" by (simp only:)
        with x(2) show "mut = old @ [del G]" by (rule_tac notE)
      qed
      have c3: "(\<forall>r \<in> set rs. \<exists>g. r = Inr g) \<and> (\<exists>r \<in> set rs. r \<noteq> hd rs) \<longrightarrow>
          out = Returns (Some NotSameMig)"
      proof
        assume "(\<forall>r \<in> set rs. \<exists>g. r = Inr g) \<and> (\<exists>r \<in> set rs. r \<noteq> hd rs)"
        then have "\<forall>r \<in> set rs1. \<exists>g. r = Inr g" using sub by blast
        with e3 have "e = NotSameMig" by (rule_tac mp)
        with o show "out = Returns (Some NotSameMig)" by (simp only:)
      qed
      have c4: "(\<exists>e. Inl e \<in> set rs) \<longrightarrow>
          (\<exists>e. out = Returns (Some e) \<and> (e = NotSameMig \<or> Inl e \<in> set rs))"
      proof
        from e2 sub have "e = NotSameMig \<or> Inl e \<in> set rs" by blast
        with o show "\<exists>e. out = Returns (Some e) \<and> (e = NotSameMig \<or> Inl e \<in> set rs)"
          by (intro exI [of _ e] conjI)
      qed
      from u have c2: "\<not> (\<exists>G. \<forall>r \<in> set rs. r = Inr (Some G)) \<longrightarrow> mut = old"
      by (rule_tac impI)
    show ?thesis by (rule conjI [OF c1 conjI [OF c2 conjI [OF c3 c4]]])
    qed
  qed
  then show ?thesis unfolding rs_def req_def out_def mut_def old_def del_def .
qed

text \<open>
  The loop stops at the first result that is not \<open>Inr G\<close>: with its error if it is one,
  with the error of instances that are not of the same group otherwise.
\<close>

lemma DeleteInstances_loop_first:
  "fst (DeleteInstances_loop dp G is m) =
     (case dropWhile (\<lambda>r. r = Inr G) (fst (lookups dp is m)) of
        [] \<Rightarrow> None
      | Inl e # rest \<Rightarrow> Some e
      | Inr g # rest \<Rightarrow> Some NotSameMig)"
proof (induction "is" arbitrary: m)
  case Nil
  then show ?case by simp
next
  case (Cons i "is")
  obtain r m1 where g: "GetMigForInstance dp i m = (r, m1)"
    by (cases "GetMigForInstance dp i m")
  then have l: "fst (lookups dp (i # is) m) = r # fst (lookups dp is m1)"
    by (simp add: case_prod_beta)
  show ?case
  proof (cases r)
    case (Inl err)
    with g show ?thesis by (simp only: l) simp
  next
    case (Inr mig)
    show ?thesis
    proof (cases "mig = G")
      case True
      with g Inr Cons.IH [of m1] show ?thesis by (simp only: l) simp
    next
      case False
      with g Inr show ?thesis by (simp only: l) simp
    qed
  qed
qed

lemma DeleteInstances_first_deviation:
  assumes "instances \<noteq> []"
  shows
    "(dropWhile (\<lambda>r. \<not> isl r \<and> r = hd (fst (lookups dp (hd instances # instances) m)))
        (fst (lookups dp (hd instances # instances) m)) = Inl e # rest \<longrightarrow>
        fst (DeleteInstances dp instances m) = Returns (Some e) \<and>
        filter mutating (calls (snd (DeleteInstances dp instances m))) =
          filter mutating (calls m)) \<and>
     (dropWhile (\<lambda>r. \<not> isl r \<and> r = hd (fst (lookups dp (hd instances # instances) m)))
        (fst (lookups dp (hd instances # instances) m)) = Inr g # rest' \<longrightarrow>
        fst (DeleteInstances dp instances m) = Returns (Some NotSameMig) \<and>
        filter mutating (calls (snd (DeleteInstances dp instances m))) =
          filter mutating (calls m))"
proof -
  from assms obtain i "is" where inst: "instances = i # is"
    by (cases instances) auto
  obtain r0 m1 where g: "GetMigForInstance dp i m = (r0, m1)"
    by (cases "GetMigForInstance dp i m")
  define rs1 where "rs1 = fst (lookups dp (i # is) m1)"
  define rs where "rs = fst (lookups dp (hd instances # instances) m)"
  define dw where "dw = dropWhile (\<lambda>r. \<not> isl r \<and> r = hd rs) rs"
  define out where "out = fst (DeleteInstances dp instances m)"
  define mut where "mut = filter mutating (calls (snd (DeleteInstances dp instances m)))"
  define old where "old = filter mutating (calls m)"
  have rs: "rs = r0 # rs1"
    unfolding rs_def rs1_def inst using g by (simp add: case_prod_beta)
  from GetMigForInstance_frame [OF g]
  have f1: "filter mutating (calls m1) = old" by (simp add: old_def)
  have c: "(dw = Inl e # rest \<longrightarrow> out = Returns (Some e) \<and> mut = old) \<and>
           (dw = Inr g # rest' \<longrightarrow> out = Returns (Some NotSameMig) \<and> mut = old)"
  proof (cases r0)
    case (Inl e0)
    with g have "DeleteInstances dp instances m = (Returns (Some e0), m1)"
      by (simp add: DeleteInstances_def inst)
    with f1 have o: "out = Returns (Some e0)" and u: "mut = old"
      by (simp_all add: out_def mut_def)
    have d: "dw = Inl e0 # rs1" unfolding dw_def rs Inl by simp
    show ?thesis unfolding d using o u by simp
  next
    case (Inr g0)
    have P: "(\<lambda>r. \<not> isl r \<and> r = hd rs) = (\<lambda>r. r = Inr g0)"
      unfolding rs Inr by (rule ext) auto
    have d: "dw = dropWhile (\<lambda>r. r = Inr g0) rs1"
      unfolding dw_def P unfolding rs Inr by simp
    have L: "fst (DeleteInstances_loop dp g0 (i # is) m1) =
       (case dw of [] \<Rightarrow> None | Inl e # rest \<Rightarrow> Some e | Inr g # rest \<Rightarrow> Some NotSameMig)"
      unfolding d rs1_def by (rule DeleteInstances_loop_first)
    have f2: "filter mutating (calls (snd (DeleteInstances_loop dp g0 (i # is) m1))) = old"
      using DeleteInstances_loop_frame [of dp g0 "i # is" m1] f1 by simp
    have R: "out = Returns (Some x) \<and> mut = old"
      if "fst (DeleteInstances_loop dp g0 (i # is) m1) = Some x" for x
    proof -
      from that g Inr
      have "DeleteInstances dp instances m =
              (Returns (Some x), snd (DeleteInstances_loop dp g0 (i # is) m1))"
        by (simp add: DeleteInstances_def inst Let_def case_prod_beta
              del: DeleteInstances_loop.simps)
      with f2 show ?thesis by (simp add: out_def mut_def)
    qed
    have a: "out = Returns (Some e) \<and> mut = old" if "dw = Inl e # rest"
      using L that by (intro R) simp
    have b: "out = Returns (Some NotSameMig) \<and> mut = old" if "dw = Inr g # rest'"
      using L that by (intro R) simp
    show ?thesis
    proof (rule conjI)
      show "dw = Inl e # rest \<longrightarrow> out = Returns (Some e) \<and> mut = old"
        by (rule impI) (rule a)
      show "dw = Inr g # rest' \<longrightarrow> out = Returns (Some NotSameMig) \<and> mut = old"
        by (rule impI) (rule b)
    qed
  qed
  then show ?thesis unfolding dw_def rs_def out_def mut_def old_def .
qed

text \<open>
  C4, as amended. \<open>DeleteInstances\<close> on a list that is not empty looks up the first
  instance and then every instance of the list in order, each lookup from the manager
  the one before left; \<open>lookups\<close> gives the results. If every lookup returned the same
  group \<open>G\<close>, exactly one mutating request is issued, the batch deletion from \<open>G\<close> of
  the URLs of all the instances. If the lookups did not all return one and the same
  group, no mutating request is issued. If every lookup returned without error and one
  result differs from the first, the error is the one of instances that are not of the
  same group. In general the first result that is an error, or a group (or nil) other
  than the result of the first lookup, decides: if it is an error, \<open>DeleteInstances\<close>
  returns that very error; if it is another group, it returns the error of instances
  that are not of the same group; in both cases no mutating request is issued.
\<close>

theorem DeleteInstances_same_group_only:
  assumes "instances \<noteq> []"
  shows
    "((\<forall>r \<in> set (fst (lookups dp (hd instances # instances) m)). r = Inr (Some G)) \<longrightarrow>
        filter mutating (calls (snd (DeleteInstances dp instances m))) =
          filter mutating (calls m) @
          [IgmDeleteInstances (Project (GceRef G)) (Zone (GceRef G)) (Name (GceRef G))
             (map (\<lambda>i. GenerateInstanceUrl dp (Project i) (Zone i) (Name i)) instances)]) \<and>
     (\<not> (\<exists>G. \<forall>r \<in> set (fst (lookups dp (hd instances # instances) m)). r = Inr (Some G)) \<longrightarrow>
        filter mutating (calls (snd (DeleteInstances dp instances m))) =
          filter mutating (calls m)) \<and>
     ((\<forall>r \<in> set (fst (lookups dp (hd instances # instances) m)). \<exists>g. r = Inr g) \<and>
      (\<exists>r \<in> set (fst (lookups dp (hd instances # instances) m)).
         r \<noteq> hd (fst (lookups dp (hd instances # instances) m))) \<longrightarrow>
        fst (DeleteInstances dp instances m) = Returns (Some NotSameMig)) \<and>
     (dropWhile (\<lambda>r. \<not> isl r \<and> r = hd (fst (lookups dp (hd instances # instances) m)))
        (fst (lookups dp (hd instances # instances) m)) = Inl e # rest \<longrightarrow>
        fst (DeleteInstances dp instances m) = Returns (Some e) \<and>
        filter mutating (calls (snd (DeleteInstances dp instances m))) =
          filter mutating (calls m)) \<and>
     (dropWhile (\<lambda>r. \<not> isl r \<and> r = hd (fst (lookups dp (hd instances # instances) m)))
        (fst (lookups dp (hd instances # instances) m)) = Inr g # rest' \<longrightarrow>
        fst (DeleteInstances dp instances m) = Returns (Some NotSameMig) \<and>
        filter mutating (calls (snd (DeleteInstances dp instances m))) =
          filter mutating (calls m))"
proof -
  note r = DeleteInstances_requests [OF assms, of dp m G]
  note d = DeleteInstances_first_deviation [OF assms, of dp m e rest g rest']
  show ?thesis
    by (rule conjI [OF r [THEN conjunct1]
          conjI [OF r [THEN conjunct2, THEN conjunct1]
            conjI [OF r [THEN conjunct2, THEN conjunct2, THEN conjunct1] d]]])
qed

text \<open>
  C4 as stated fails. The instance \<^verbatim>\<open>other-1\<close> is a member of no group and not in the
  cache; the two registered groups are of its project and zone. The lookup regenerates
  the cache and returns the error that the instance belongs to no configured group, and
  \<open>DeleteInstances\<close> returns that error, not the one of instances that are not of the
  same group.
\<close>

theorem DeleteInstances_returns_lookup_error:
  "migCache registered_manager (inst ''other-1'') = None \<and>
   fst (GetMigForInstance sample_deps (inst ''other-1'') registered_manager) =
     Inl (NotInAnyMig (inst ''other-1'')) \<and>
   fst (DeleteInstances sample_deps [inst ''other-1''] registered_manager) =
     Returns (Some (NotInAnyMig (inst ''other-1''))) \<and>
   fst (DeleteInstances sample_deps [inst ''other-1''] registered_manager) \<noteq>
     Returns (Some NotSameMig)"
  by (simp add: DeleteInstances_def GetMigForInstance_def regenerateCache_def getMigs_def
        issue_def Let_def strings_HasPrefix_def sample_deps_def registered_manager_def
        sample_manager_def grp_a_def grp_b_def inst_def)

text \<open>
  With no group registered the lookup of the same instance returns nil without error,
  the loop finds every result equal to the first, and building the request dereferences
  the nil group: a panic, before any request.
\<close>

lemma DeleteInstances_unattributed_panics:
  "fst (GetMigForInstance sample_deps (inst ''other-1'') sample_manager) = Inr None \<and>
   fst (DeleteInstances sample_deps [inst ''other-1''] sample_manager) = Panics"
  by (simp add: DeleteInstances_def GetMigForInstance_def getMigs_def
        sample_manager_def inst_def)

lemma lookups_cached_same:
  "fst (lookups sample_deps [inst ''grp-a-1'', inst ''grp-a-1'', inst ''grp-a-2''] cached_manager) =
     [Inr (Some grp_a), Inr (Some grp_a), Inr (Some grp_a)]"
  by (simp add: GetMigForInstance_def cached_manager_def registered_manager_def
        sample_manager_def inst_def)

lemma lookups_cached_mixed:
  "fst (lookups sample_deps [inst ''grp-a-1'', inst ''grp-a-1'', inst ''grp-b-1''] cached_manager) =
     [Inr (Some grp_a), Inr (Some grp_a), Inr (Some grp_b)]"
  by (simp add: GetMigForInstance_def cached_manager_def registered_manager_def
        sample_manager_def inst_def)

lemma grp_a_not_grp_b: "grp_a \<noteq> grp_b"
  by (simp add: grp_a_def grp_b_def)

lemma lookups_cached_then_other:
  "fst (lookups sample_deps [inst ''grp-a-1'', inst ''grp-a-1'', inst ''other-1''] cached_manager) =
     [Inr (Some grp_a), Inr (Some grp_a), Inl (NotInAnyMig (inst ''other-1''))]"
  by (simp add: GetMigForInstance_def regenerateCache_def getMigs_def issue_def Let_def
        strings_HasPrefix_def sample_deps_def cached_manager_def registered_manager_def
        sample_manager_def grp_a_def grp_b_def inst_def)

lemma lookups_cached_mixed_then_other:
  "fst (lookups sample_deps
          [inst ''grp-a-1'', inst ''grp-a-1'', inst ''grp-b-1'', inst ''other-1''] cached_manager) =
     [Inr (Some grp_a), Inr (Some grp_a), Inr (Some grp_b), Inl (NotInAnyMig (inst ''other-1''))]"
  by (simp add: GetMigForInstance_def regenerateCache_def getMigs_def issue_def Let_def
        strings_HasPrefix_def sample_deps_def cached_manager_def registered_manager_def
        sample_manager_def grp_a_def grp_b_def inst_def)

theorem DeleteInstances_same_group_only_witness:
  "[inst ''grp-a-1'', inst ''grp-a-2''] \<noteq> [] \<and>
   fst (lookups sample_deps [inst ''grp-a-1'', inst ''grp-a-1'', inst ''grp-a-2''] cached_manager) =
     [Inr (Some grp_a), Inr (Some grp_a), Inr (Some grp_a)] \<and>
   filter mutating (calls (snd (DeleteInstances sample_deps
       [inst ''grp-a-1'', inst ''grp-a-2''] cached_manager))) =
     [IgmDeleteInstances ''p1'' ''z1'' ''grp-a'' [''grp-a-1'', ''grp-a-2'']] \<and>
   fst (lookups sample_deps [inst ''grp-a-1'', inst ''grp-a-1'', inst ''grp-b-1''] cached_manager) =
     [Inr (Some grp_a), Inr (Some grp_a), Inr (Some grp_b)] \<and>
   fst (DeleteInstances sample_deps [inst ''grp-a-1'', inst ''grp-b-1''] cached_manager) =
     Returns (Some NotSameMig) \<and>
   filter mutating (calls (snd (DeleteInstances sample_deps
       [inst ''grp-a-1'', inst ''grp-b-1''] cached_manager))) = [] \<and>
   fst (lookups sample_deps [inst ''grp-a-1'', inst ''grp-a-1'', inst ''other-1''] cached_manager) =
     [Inr (Some grp_a), Inr (Some grp_a), Inl (NotInAnyMig (inst ''other-1''))] \<and>
   fst (DeleteInstances sample_deps [inst ''grp-a-1'', inst ''other-1''] cached_manager) =
     Returns (Some (NotInAnyMig (inst ''other-1''))) \<and>
   fst (lookups sample_deps
          [inst ''grp-a-1'', inst ''grp-a-1'', inst ''grp-b-1'', inst ''other-1''] cached_manager) =
     [Inr (Some grp_a), Inr (Some grp_a), Inr (Some grp_b), Inl (NotInAnyMig (inst ''other-1''))] \<and>
   fst (DeleteInstances sample_deps [inst ''grp-a-1'', inst ''grp-b-1'', inst ''other-1'']
          cached_manager) = Returns (Some NotSameMig)"
proof -
  let ?same = "[inst ''grp-a-1'', inst ''grp-a-2'']"
  let ?mixed = "[inst ''grp-a-1'', inst ''grp-b-1'']"
  let ?other = "[inst ''grp-a-1'', inst ''other-1'']"
  let ?both = "[inst ''grp-a-1'', inst ''grp-b-1'', inst ''other-1'']"
  have old: "filter mutating (calls cached_manager) = []"
    by (simp add: cached_manager_def registered_manager_def sample_manager_def)
  have s: "\<forall>r \<in> set (fst (lookups sample_deps (hd ?same # ?same) cached_manager)).
             r = Inr (Some grp_a)"
    using lookups_cached_same by simp
  from DeleteInstances_same_group_only [of ?same sample_deps cached_manager grp_a,
      THEN conjunct1] s
  have "filter mutating (calls (snd (DeleteInstances sample_deps ?same cached_manager))) =
          filter mutating (calls cached_manager) @
          [IgmDeleteInstances (Project (GceRef grp_a)) (Zone (GceRef grp_a)) (Name (GceRef grp_a))
             (map (\<lambda>i. GenerateInstanceUrl sample_deps (Project i) (Zone i) (Name i)) ?same)]"
    by simp
  then have a: "filter mutating (calls (snd (DeleteInstances sample_deps ?same cached_manager))) =
     [IgmDeleteInstances ''p1'' ''z1'' ''grp-a'' [''grp-a-1'', ''grp-a-2'']]"
    by (simp add: old grp_a_def sample_deps_def inst_def)
  have n: "\<not> (\<exists>G. \<forall>r \<in> set (fst (lookups sample_deps (hd ?mixed # ?mixed) cached_manager)).
             r = Inr (Some G))"
    using lookups_cached_mixed grp_a_not_grp_b by simp
  have d: "(\<forall>r \<in> set (fst (lookups sample_deps (hd ?mixed # ?mixed) cached_manager)). \<exists>g. r = Inr g) \<and>
      (\<exists>r \<in> set (fst (lookups sample_deps (hd ?mixed # ?mixed) cached_manager)).
         r \<noteq> hd (fst (lookups sample_deps (hd ?mixed # ?mixed) cached_manager)))"
    using lookups_cached_mixed grp_a_not_grp_b by simp
  note t = DeleteInstances_same_group_only [of ?mixed sample_deps cached_manager grp_a]
  from t [THEN conjunct2, THEN conjunct1] n old
  have b: "filter mutating (calls (snd (DeleteInstances sample_deps ?mixed cached_manager))) = []"
    by simp
  from t [THEN conjunct2, THEN conjunct2, THEN conjunct1] d
  have c: "fst (DeleteInstances sample_deps ?mixed cached_manager) = Returns (Some NotSameMig)"
    by simp
  have o: "dropWhile (\<lambda>r. \<not> isl r \<and>
               r = hd (fst (lookups sample_deps (hd ?other # ?other) cached_manager)))
             (fst (lookups sample_deps (hd ?other # ?other) cached_manager)) =
           Inl (NotInAnyMig (inst ''other-1'')) # []"
    using lookups_cached_then_other by simp
  from DeleteInstances_same_group_only [of ?other sample_deps cached_manager grp_a
      "NotInAnyMig (inst ''other-1'')" "[]",
      THEN conjunct2, THEN conjunct2, THEN conjunct2, THEN conjunct1] o
  have e: "fst (DeleteInstances sample_deps ?other cached_manager) =
             Returns (Some (NotInAnyMig (inst ''other-1'')))"
    by simp
  have p: "dropWhile (\<lambda>r. \<not> isl r \<and>
               r = hd (fst (lookups sample_deps (hd ?both # ?both) cached_manager)))
             (fst (lookups sample_deps (hd ?both # ?both) cached_manager)) =
           Inr (Some grp_b) # [Inl (NotInAnyMig (inst ''other-1''))]"
    using lookups_cached_mixed_then_other grp_a_not_grp_b by simp
  from DeleteInstances_same_group_only [of ?both sample_deps cached_manager grp_a
      _ _ "Some grp_b" "[Inl (NotInAnyMig (inst ''other-1''))]",
      THEN conjunct2, THEN conjunct2, THEN conjunct2, THEN conjunct2] p
  have f: "fst (DeleteInstances sample_deps ?both cached_manager) = Returns (Some NotSameMig)"
    by simp
  have ne: "?same \<noteq> []" by simp
  show ?thesis
    by (rule conjI [OF ne conjI [OF lookups_cached_same conjI [OF a
          conjI [OF lookups_cached_mixed conjI [OF c conjI [OF b
          conjI [OF lookups_cached_then_other conjI [OF e
          conjI [OF lookups_cached_mixed_then_other f]]]]]]]]])
qed

subsection \<open>fetchAllNodePools\<close>

text \<open>
  The test for the prefix is on the literal \<^verbatim>\<open>"name"\<close>, which does not contain it: a
  pool without autoscaling enabled is skipped whatever its name.
\<close>

lemma name_is_not_a_node_pool_name:
  "strings_Contains ''name'' nodeAutoprovisioningPrefix = False"
  by (simp add: nodeAutoprovisioningPrefix_def)

lemma fetch_pools_skips_when_not_autoscaled:
  "(case Autoscaling nodePool of None \<Rightarrow> False | Some a \<Rightarrow> Enabled a) = False \<Longrightarrow>
   fetch_pools dp (nodePool # rest) m = fetch_pools dp rest m"
  by (simp add: nodeAutoprovisioningPrefix_def Let_def)

text \<open>
  C1. The listing has three pools: one with autoscaling from 1 to 5, one named
  \<^verbatim>\<open>nodeautoprovisioning-pool\<close> with autoscaling disabled, one with neither. The name of
  the second contains the reserved prefix, and discovery returns nil having registered
  the group of the first pool only.
\<close>

theorem fetchAllNodePools_skips_autoprovisioned_pool:
  "sample_pools ! 1 =
     \<lparr>NodePool_Name = ''nodeautoprovisioning-pool'',
      Autoscaling = Some \<lparr>Enabled = False, MinNodeCount = 0, MaxNodeCount = 0\<rparr>,
      InstanceGroupUrls = [''grp-b'']\<rparr> \<and>
   strings_Contains (NodePool_Name (sample_pools ! 1)) nodeAutoprovisioningPrefix \<and>
   fst (fetchAllNodePools sample_deps sample_manager) = Returns None \<and>
   map config (migs (snd (fetchAllNodePools sample_deps sample_manager))) = [grp_a]"
  by (simp add: fetchAllNodePools_def RegisterMig_def issue_def Let_def
        name_is_not_a_node_pool_name nodeAutoprovisioningPrefix_def ModeGKE_def
        sample_deps_def sample_pools_def sample_manager_def grp_a_def)

end
